theory Spec2Isabelle
  imports Main
begin

section \<open>Python values, text and errors\<close>

text \<open>
  The development embeds the lazy query-building layer of \<^verbatim>\<open>swat/cas/table.py\<close>:
  the classes \<^verbatim>\<open>CASTable\<close> (a table handle) and \<^verbatim>\<open>CASColumn\<close> (a column handle).
  Python text is modelled as \<^typ>\<open>string\<close> and is taken to be ASCII; Python's
  unbounded integers are \<^typ>\<open>int\<close>. Every exception the source raises is a value of
  the type \<open>error\<close>, and every function that can raise returns a sum whose left
  injection is the exception.
\<close>

datatype error =
    SWATError string
  | TypeError string
  | KeyError string
  | KeyErrorPos int
  | AttributeError string
  | IndexError string
  | ValueError string

text \<open>\<^verbatim>\<open>str.lower()\<close> on ASCII text.\<close>

definition lower_char :: "char \<Rightarrow> char" where
  "lower_char c =
     (case map_of (zip ''ABCDEFGHIJKLMNOPQRSTUVWXYZ'' ''abcdefghijklmnopqrstuvwxyz'') c of
        Some l \<Rightarrow> l
      | None \<Rightarrow> c)"

definition lower :: "string \<Rightarrow> string" where
  "lower s = map lower_char s"

text \<open>
  Whitespace as \<^verbatim>\<open>str.strip()\<close> and the regular expression class \<^verbatim>\<open>\s\<close> see it
  on ASCII text: tab, line feed, vertical tab, form feed, carriage return, the four
  separators \<^verbatim>\<open>0x1c\<close>..\<^verbatim>\<open>0x1f\<close> and the blank.
\<close>

definition is_space :: "char \<Rightarrow> bool" where
  "is_space c \<longleftrightarrow>
     c \<in> set [CHR 0x09, CHR 0x0A, CHR 0x0B, CHR 0x0C, CHR 0x0D,
              CHR 0x1C, CHR 0x1D, CHR 0x1E, CHR 0x1F, CHR 0x20]"

definition rstrip :: "string \<Rightarrow> string" where
  "rstrip s = rev (dropWhile is_space (rev s))"

definition strip :: "string \<Rightarrow> string" where
  "strip s = dropWhile is_space (rstrip s)"

text \<open>\<^verbatim>\<open>_escape_string\<close>: every double quote is doubled.\<close>

definition escape_string :: "string \<Rightarrow> string" where
  "escape_string val = concat (map (\<lambda>c. if c = CHR 0x22 then [c, c] else [c]) val)"

text \<open>
  \<^verbatim>\<open>_nlit\<close>: \<^verbatim>\<open>re.match(r'[A-Za-z_]\w*', name)\<close> succeeds as soon as the first
  character is a letter or an underscore (the pattern is not anchored at the end), and
  then the name is returned as it is; otherwise it is quoted as a name literal.
\<close>

definition is_name_start :: "char \<Rightarrow> bool" where
  "is_name_start c \<longleftrightarrow>
     c \<in> set ''ABCDEFGHIJKLMNOPQRSTUVWXYZabcdefghijklmnopqrstuvwxyz_''"

definition nlit :: "string \<Rightarrow> string" where
  "nlit name =
     (case name of
        c # _ \<Rightarrow> if is_name_start c then name
                 else [CHR 0x22] @ escape_string name @ [CHR 0x22] @ ''n''
      | [] \<Rightarrow> [CHR 0x22] @ escape_string name @ [CHR 0x22] @ ''n'')"

text \<open>
  \<^verbatim>\<open>_flatten\<close>: the positional arguments of the \<^verbatim>\<open>append_*\<close> methods are
  strings or (nested) lists of strings; the generator yields the strings in order.
\<close>

datatype arg = Item string | Items "arg list"

primrec flatten_arg :: "arg \<Rightarrow> string list"
  and flatten :: "arg list \<Rightarrow> string list" where
  "flatten_arg (Item s) = [s]"
| "flatten_arg (Items xs) = flatten xs"
| "flatten [] = []"
| "flatten (x # xs) = flatten_arg x @ flatten xs"

text \<open>
  \<^verbatim>\<open>_get_unique\<close>: the comprehension keeps \<open>x\<close> unless \<open>x\<close> itself, or (with
  \<^verbatim>\<open>lowercase=True\<close>) its lower-cased form, is among the items kept so far; a kept
  item enters \<open>seen\<close> in its own casing.
\<close>

fun get_unique_seen :: "bool \<Rightarrow> string list \<Rightarrow> string list \<Rightarrow> string list" where
  "get_unique_seen lowercase seen [] = []"
| "get_unique_seen lowercase seen (x # xs) =
     (if x \<in> set seen \<or> (lowercase \<and> lower x \<in> set seen)
      then get_unique_seen lowercase seen xs
      else x # get_unique_seen lowercase (x # seen) xs)"

definition get_unique :: "string list \<Rightarrow> bool \<Rightarrow> string list" where
  "get_unique seq lowercase = get_unique_seen lowercase [] seq"

text \<open>\<^verbatim>\<open>sep.join(items)\<close>.\<close>

fun join :: "string \<Rightarrow> string list \<Rightarrow> string" where
  "join sep [] = []"
| "join sep [x] = x"
| "join sep (x # y # ys) = x @ sep @ join sep (y # ys)"

section \<open>Parameter bundles, handles and the world\<close>

text \<open>
  A parameter value is text or a reference to a Python list object. List objects are
  mutable and can be reached from several handles, so they live in an explicit heap
  (a list of objects addressed by position; allocation appends).
\<close>

type_synonym addr = nat

datatype pval = PStr string | PList addr

type_synonym params = "(string \<times> pval) list"

text \<open>
  Modelled from the spec: the class \<^verbatim>\<open>ParamManager\<close> (\<^verbatim>\<open>swat/cas/utils/params.py\<close>)
  is not among the sources. The spec describes the bundle as a mapping from parameter
  name to value, case-insensitive on the key, keeping the casing of the key as first
  set, with \<open>get\<close>, \<open>set\<close>, \<open>has\<close> and \<open>delete\<close>, none of which copies a value.
\<close>

fun get_param :: "params \<Rightarrow> string \<Rightarrow> pval option" where
  "get_param [] key = None"
| "get_param ((k, v) # ps) key =
     (if lower k = lower key then Some v else get_param ps key)"

definition has_param :: "params \<Rightarrow> string \<Rightarrow> bool" where
  "has_param ps key \<longleftrightarrow> get_param ps key \<noteq> None"

fun set_param :: "params \<Rightarrow> string \<Rightarrow> pval \<Rightarrow> params" where
  "set_param [] key v = [(key, v)]"
| "set_param ((k, u) # ps) key v =
     (if lower k = lower key then (k, v) # ps else (k, u) # set_param ps key v)"

fun del_param :: "params \<Rightarrow> string \<Rightarrow> params" where
  "del_param [] key = []"
| "del_param ((k, u) # ps) key =
     (if lower k = lower key then ps else (k, u) # del_param ps key)"

text \<open>
  What a parameter bundle denotes once its references are followed: the value the remote
  server receives and the value Python's \<^verbatim>\<open>==\<close> compares.
\<close>

datatype pvalue = VStr string | VList "string list"

definition deref :: "string list list \<Rightarrow> addr \<Rightarrow> string list" where
  "deref h a = (if a < length h then h ! a else [])"

fun value_of :: "string list list \<Rightarrow> pval \<Rightarrow> pvalue" where
  "value_of h (PStr s) = VStr s"
| "value_of h (PList a) = VList (deref h a)"

definition bundle_of :: "string list list \<Rightarrow> params \<Rightarrow> (string \<times> pvalue) list" where
  "bundle_of h ps = map (\<lambda>(k, v). (k, value_of h v)) ps"

text \<open>
  The \<^verbatim>\<open>table.fetch\<close> defaults kept by \<^verbatim>\<open>ActionParamManager\<close> (also outside the
  sources): for each action name, its keyword defaults; the only default the embedded
  code writes is the \<^verbatim>\<open>sortby\<close> list of \<^verbatim>\<open>table.fetch\<close>.
\<close>

record sortspec =
  sort_name :: string
  sort_order :: string
  sort_formatted :: string

type_synonym action_params = "(string \<times> (string \<times> sortspec list) list) list"

text \<open>
  A handle: \<^verbatim>\<open>CASTable\<close>, or \<^verbatim>\<open>CASColumn\<close> when \<open>is_column\<close> holds. The field
  \<open>connection\<close> is the attribute \<^verbatim>\<open>_connection\<close>: absent, or a weak reference to
  a connection object.
\<close>

record handle =
  params :: params
  action_defaults :: action_params
  connection :: "addr option"
  is_column :: bool

text \<open>
  A remote action call, as the connection receives it: the action's name, the handle's
  parameter bundle, and the keyword arguments.
\<close>

datatype kwval = KwInt int | KwBool bool | KwStr string

record request =
  action :: string
  table_bundle :: "(string \<times> pvalue) list"
  kwargs :: "(string \<times> kwval) list"

text \<open>
  What the server answers: a failure (severity above 1, with its status text), the
  \<^verbatim>\<open>ColumnInfo\<close> table (column name and type of each visible column), the row count,
  or fetched rows.
\<close>

datatype response =
    Failure string
  | ColumnInfo "(string \<times> string) list"
  | NumRows int
  | Rows "string list list"

text \<open>
  Modelled from the spec: the connection class is outside the sources. A connection
  object answers action calls (\<open>invoke_action\<close>) and hands out suffixes that are unique
  for its lifetime (\<open>generate_unique_suffix\<close>, here a counter). The connection is taken
  to provide the built-in actions \<^verbatim>\<open>table.columninfo\<close>, \<^verbatim>\<open>simple.numrows\<close> and
  \<^verbatim>\<open>table.fetch\<close>.
\<close>

record conn =
  next_id :: nat
  server :: "request \<Rightarrow> response"

text \<open>
  The world: the heap of list objects, the connection objects (\<open>None\<close> once an object
  has been released, which is what a dead weak reference yields), and the log of the
  remote action calls made so far.
\<close>

record world =
  heap :: "string list list"
  conns :: "addr \<Rightarrow> conn option"
  calls :: "request list"

type_synonym 'a comp = "world \<Rightarrow> (error + 'a) \<times> world"

definition ret :: "'a \<Rightarrow> 'a comp" where
  "ret x w = (Inr x, w)"

definition throw :: "error \<Rightarrow> 'a comp" where
  "throw e w = (Inl e, w)"

definition bind :: "'a comp \<Rightarrow> ('a \<Rightarrow> 'b comp) \<Rightarrow> 'b comp" where
  "bind m f w = (case m w of (Inl e, w') \<Rightarrow> (Inl e, w') | (Inr x, w') \<Rightarrow> f x w')"

text \<open>Allocation of a new list object.\<close>

definition alloc :: "string list \<Rightarrow> addr comp" where
  "alloc xs w = (Inr (length (heap w)), w\<lparr>heap := heap w @ [xs]\<rparr>)"

section \<open>Connections\<close>

text \<open>
  \<^verbatim>\<open>set_connection\<close> stores \<^verbatim>\<open>None\<close> or a weak reference to the connection;
  \<^verbatim>\<open>get_connection\<close> follows it and raises when there is none or when the referenced
  object is gone.
\<close>

definition set_connection :: "handle \<Rightarrow> addr option \<Rightarrow> handle" where
  "set_connection t c = t\<lparr>connection := c\<rparr>"

definition no_connection :: error where
  "no_connection = SWATError ''No connection is currently registered''"

definition get_connection :: "handle \<Rightarrow> addr comp" where
  "get_connection t w =
     (case connection t of
        None \<Rightarrow> (Inl no_connection, w)
      | Some r \<Rightarrow>
          (case conns w r of
             None \<Rightarrow> (Inl no_connection, w)
           | Some c \<Rightarrow> (Inr r, w)))"

text \<open>
  \<^verbatim>\<open>retrieve\<close> resolves the action through \<^verbatim>\<open>__getattr__\<close>, which for a dotted
  action name starts with \<^verbatim>\<open>get_connection\<close>; the call is then made on the connection.
  \<^verbatim>\<open>_retrieve\<close> adds the two user-interface keywords and raises \<^verbatim>\<open>SWATError\<close> with
  the status when the severity is above 1.
\<close>

definition retrieve :: "handle \<Rightarrow> string \<Rightarrow> (string \<times> kwval) list \<Rightarrow> response comp" where
  "retrieve t act kw w =
     (case get_connection t w of
        (Inl e, w') \<Rightarrow> (Inl e, w')
      | (Inr r, w') \<Rightarrow>
          (case conns w' r of
             None \<Rightarrow> (Inl no_connection, w')
           | Some c \<Rightarrow>
               (let rq = \<lparr>action = act, table_bundle = bundle_of (heap w') (params t), kwargs = kw\<rparr>
                in (Inr (server c rq), w'\<lparr>calls := calls w' @ [rq]\<rparr>))))"

definition ui_kwargs :: "(string \<times> kwval) list" where
  "ui_kwargs = [(''_apptag'', KwStr ''UI''), (''_messagelevel'', KwStr ''none'')]"

definition retrieve_ui :: "handle \<Rightarrow> string \<Rightarrow> (string \<times> kwval) list \<Rightarrow> response comp" where
  "retrieve_ui t act kw =
     bind (retrieve t act (ui_kwargs @ kw))
       (\<lambda>out. case out of Failure status \<Rightarrow> throw (SWATError status) | _ \<Rightarrow> ret out)"

text \<open>Releasing a connection object: every weak reference to it is dead afterwards.\<close>

definition release :: "addr \<Rightarrow> world \<Rightarrow> world" where
  "release r w = w\<lparr>conns := (conns w)(r := None)\<rparr>"

section \<open>Metadata properties of a handle\<close>

text \<open>
  \<^verbatim>\<open>_columninfo\<close> and \<^verbatim>\<open>_numrows\<close> are properties that call the server each time
  they are read: \<^verbatim>\<open>self._retrieve('table.columninfo')['ColumnInfo']\<close> and
  \<^verbatim>\<open>self._retrieve('simple.numrows')['numrows']\<close>.
\<close>

definition columninfo :: "handle \<Rightarrow> (string \<times> string) list comp" where
  "columninfo t =
     bind (retrieve_ui t ''table.columninfo'' [])
       (\<lambda>out. case out of ColumnInfo ci \<Rightarrow> ret ci | _ \<Rightarrow> throw (KeyError ''ColumnInfo''))"

definition numrows :: "handle \<Rightarrow> int comp" where
  "numrows t =
     bind (retrieve_ui t ''simple.numrows'' [])
       (\<lambda>out. case out of NumRows n \<Rightarrow> ret n | _ \<Rightarrow> throw (KeyError ''numrows''))"

text \<open>
  \<^verbatim>\<open>columns\<close>: the \<^verbatim>\<open>varlist\<close> parameter when it is truthy (a non-empty list; a
  non-empty text makes \<^verbatim>\<open>pd.Index\<close> raise), else the names the server reports.
\<close>

definition columns :: "handle \<Rightarrow> string list comp" where
  "columns t w =
     (case get_param (params t) ''varlist'' of
        Some (PList a) \<Rightarrow>
          if deref (heap w) a \<noteq> [] then (Inr (deref (heap w) a), w)
          else bind (columninfo t) (\<lambda>ci. ret (map fst ci)) w
      | Some (PStr s) \<Rightarrow>
          if s \<noteq> [] then (Inl (TypeError ''Index(...) must be called with a collection of some kind''), w)
          else bind (columninfo t) (\<lambda>ci. ret (map fst ci)) w
      | None \<Rightarrow> bind (columninfo t) (\<lambda>ci. ret (map fst ci)) w)"


section \<open>Copies of a handle\<close>

text \<open>
  \<^verbatim>\<open>__copy__\<close> builds \<^verbatim>\<open>type(self)(**self.params)\<close>: a new handle whose bundle maps
  the same keys to the same value objects, so a list object of the source is also the
  list object of the copy. The connection is set again from \<^verbatim>\<open>get_connection\<close>; when
  that raises, the copy has none. Handles are built by the constructor, which always
  stores the \<^verbatim>\<open>name\<close> parameter.
\<close>

definition reconnect :: "handle \<Rightarrow> world \<Rightarrow> addr option" where
  "reconnect t w = (case fst (get_connection t w) of Inr r \<Rightarrow> Some r | Inl e \<Rightarrow> None)"

definition shallow_copy :: "handle \<Rightarrow> handle comp" where
  "shallow_copy t w =
     (Inr \<lparr>params = params t, action_defaults = action_defaults t,
           connection = reconnect t w, is_column = is_column t\<rparr>, w)"

text \<open>
  \<^verbatim>\<open>__deepcopy__\<close> builds the new handle from \<^verbatim>\<open>copy.deepcopy(self.params)\<close>: every
  list object reached from the bundle is duplicated once (the memo of \<^verbatim>\<open>deepcopy\<close>
  maps a source object to its duplicate, so two parameters that held one object hold one
  duplicate).
\<close>

fun deepcopy_params ::
  "params \<Rightarrow> (addr \<times> addr) list \<Rightarrow> string list list \<Rightarrow> params \<times> string list list" where
  "deepcopy_params [] memo h = ([], h)"
| "deepcopy_params ((k, PStr s) # ps) memo h =
     (case deepcopy_params ps memo h of (ps', h') \<Rightarrow> ((k, PStr s) # ps', h'))"
| "deepcopy_params ((k, PList a) # ps) memo h =
     (case map_of memo a of
        Some b \<Rightarrow> (case deepcopy_params ps memo h of (ps', h') \<Rightarrow> ((k, PList b) # ps', h'))
      | None \<Rightarrow>
          (case deepcopy_params ps ((a, length h) # memo) (h @ [deref h a]) of
             (ps', h') \<Rightarrow> ((k, PList (length h)) # ps', h')))"

definition deep_copy :: "handle \<Rightarrow> handle comp" where
  "deep_copy t w =
     (case deepcopy_params (params t) [] (heap w) of
        (ps, h) \<Rightarrow>
          (Inr \<lparr>params = ps, action_defaults = action_defaults t,
                connection = reconnect t w, is_column = is_column t\<rparr>, w\<lparr>heap := h\<rparr>))"

text \<open>\<^verbatim>\<open>copy(deep)\<close>.\<close>

definition copy_handle :: "handle \<Rightarrow> bool \<Rightarrow> handle comp" where
  "copy_handle t deep = (if deep then deep_copy t else shallow_copy t)"

section \<open>Appending to the pending query\<close>

text \<open>
  In-place operations on a list object: \<^verbatim>\<open>list.append\<close> for each new item, and
  item assignment.
\<close>

definition list_extend :: "addr \<Rightarrow> string list \<Rightarrow> unit comp" where
  "list_extend a xs w = (Inr (), w\<lparr>heap := (heap w)[a := deref (heap w) a @ xs]\<rparr>)"

definition list_assign :: "addr \<Rightarrow> string list \<Rightarrow> unit comp" where
  "list_assign a xs w = (Inr (), w\<lparr>heap := (heap w)[a := xs]\<rparr>)"

definition read_list :: "addr \<Rightarrow> string list comp" where
  "read_list a w = (Inr (deref (heap w) a), w)"

text \<open>The items the \<^verbatim>\<open>append_*\<close> loops append: the truthy strings of \<^verbatim>\<open>_flatten(items)\<close>.\<close>

definition new_items :: "arg list \<Rightarrow> string list" where
  "new_items items = filter (\<lambda>x. x \<noteq> []) (flatten items)"

text \<open>
  The list a method works on after \<^verbatim>\<open>get_param(key, [])\<close> and the
  \<^verbatim>\<open>isinstance(..., items_types)\<close> test: the stored list object itself, or a new list
  holding the stored text, or a new empty list.
\<close>

definition param_as_list :: "handle \<Rightarrow> string \<Rightarrow> addr comp" where
  "param_as_list t key =
     (case get_param (params t) key of
        Some (PList a) \<Rightarrow> ret a
      | Some (PStr s) \<Rightarrow> alloc [s]
      | None \<Rightarrow> alloc [])"


definition store_list :: "handle \<Rightarrow> string \<Rightarrow> string list \<Rightarrow> handle comp" where
  "store_list t key xs = bind (alloc xs) (\<lambda>b. ret (t\<lparr>params := set_param (params t) key (PList b)\<rparr>))"


text \<open>\<^verbatim>\<open>append_compvars\<close> and \<^verbatim>\<open>append_groupby\<close>.\<close>

definition append_names_list :: "handle \<Rightarrow> string \<Rightarrow> arg list \<Rightarrow> string list comp" where
  "append_names_list t key items =
     bind (param_as_list t key)
       (\<lambda>a. bind (list_extend a (new_items items))
       (\<lambda>_. bind (read_list a)
       (\<lambda>varlist. ret (get_unique varlist True))))"

definition append_compvars :: "handle \<Rightarrow> arg list \<Rightarrow> handle comp" where
  "append_compvars t items =
     bind (append_names_list t ''compvars'' items) (store_list t ''compvars'')"

definition append_groupby :: "handle \<Rightarrow> arg list \<Rightarrow> handle comp" where
  "append_groupby t items =
     bind (append_names_list t ''groupby'' items) (store_list t ''groupby'')"

text \<open>
  \<^verbatim>\<open>append_comppgm\<close>: a block that does not end in a semicolon followed by
  whitespace only (\<^verbatim>\<open>re.search(r';\s*$', block)\<close>) is right-stripped and given
  \<^verbatim>\<open>'; '\<close>, by assignment into the list; the distinct blocks are concatenated.
\<close>

definition ends_statement :: "string \<Rightarrow> bool" where
  "ends_statement block =
     (case rev (rstrip block) of c # _ \<Rightarrow> c = CHR '';'' | [] \<Rightarrow> False)"

definition terminate_block :: "string \<Rightarrow> string" where
  "terminate_block block = (if ends_statement block then block else rstrip block @ ''; '')"

definition append_comppgm_text :: "handle \<Rightarrow> arg list \<Rightarrow> string comp" where
  "append_comppgm_text t items =
     bind (param_as_list t ''comppgm'')
       (\<lambda>a. bind (list_extend a (new_items items))
       (\<lambda>_. bind (read_list a)
       (\<lambda>code. bind (list_assign a (map terminate_block code))
       (\<lambda>_. ret (concat (get_unique (map terminate_block code) False))))))"

definition append_comppgm :: "handle \<Rightarrow> arg list \<Rightarrow> handle comp" where
  "append_comppgm t items =
     bind (append_comppgm_text t items)
       (\<lambda>code. ret (t\<lparr>params := set_param (params t) ''comppgm'' (PStr code)\<rparr>))"

text \<open>\<^verbatim>\<open>append_computed_columns\<close> with \<^verbatim>\<open>inplace=True\<close>.\<close>

definition append_computed_columns :: "handle \<Rightarrow> arg \<Rightarrow> arg \<Rightarrow> handle comp" where
  "append_computed_columns t names code =
     bind (append_compvars t [names]) (\<lambda>t'. append_comppgm t' [code])"

text \<open>
  \<^verbatim>\<open>append_where\<close>: every condition whose stripped text is not empty is wrapped in
  parentheses, the distinct wrapped conditions are joined with \<^verbatim>\<open>' and '\<close>.
\<close>

definition wrap_condition :: "string \<Rightarrow> string" where
  "wrap_condition x = ''('' @ x @ '')''"

definition append_where_text :: "handle \<Rightarrow> arg list \<Rightarrow> string comp" where
  "append_where_text t items =
     bind (param_as_list t ''where'')
       (\<lambda>a. bind (list_extend a (new_items items))
       (\<lambda>_. bind (read_list a)
       (\<lambda>code. ret (join '' and ''
           (get_unique (map wrap_condition (filter (\<lambda>x. strip x \<noteq> []) code)) False)))))"

definition append_where :: "handle \<Rightarrow> arg list \<Rightarrow> handle comp" where
  "append_where t items =
     bind (append_where_text t items)
       (\<lambda>code. ret (t\<lparr>params := set_param (params t) ''where'' (PStr code)\<rparr>))"

text \<open>
  \<^verbatim>\<open>query\<close>: returns the handle that carries the new filter, \<^verbatim>\<open>self\<close> when
  \<^verbatim>\<open>inplace\<close> is true and a deep copy otherwise.
\<close>

definition query :: "handle \<Rightarrow> string \<Rightarrow> bool \<Rightarrow> string \<Rightarrow> handle comp" where
  "query t expr inplace engine =
     (if engine \<noteq> ''cas'' then throw (SWATError ''Only CAS queries are supported at this time.'')
      else bind (if inplace then ret t else copy_handle t True)
             (\<lambda>tbl. append_where tbl [Item expr]))"

section \<open>Fetching a range of rows\<close>

text \<open>
  \<^verbatim>\<open>slice\<close>. The loop over the groups keeps \<open>start\<close> and \<open>stop\<close> across
  iterations: a missing \<open>stop\<close> becomes \<open>start + 5\<close>, a negative bound is resolved
  against the row count of the group at hand, read from the server at that moment, and
  the group is fetched with \<^verbatim>\<open>from_ = start + 1\<close> and \<^verbatim>\<open>to = stop + 1\<close>.
\<close>

definition fetched_rows :: "response \<Rightarrow> string list list comp" where
  "fetched_rows out =
     (case out of Rows rs \<Rightarrow> ret rs | _ \<Rightarrow> throw (TypeError ''cannot concatenate the fetch result''))"







text \<open>The requests a computation adds to the log of remote calls.\<close>

definition new_calls :: "'a comp \<Rightarrow> world \<Rightarrow> request list" where
  "new_calls m w = drop (length (calls w)) (calls (snd (m w)))"

section \<open>Column expressions\<close>

text \<open>\<^verbatim>\<open>str(n)\<close> for an integer: decimal digits, with a minus sign for a negative number.\<close>

fun str_nat :: "nat \<Rightarrow> string" where
  "str_nat n =
     (if n < 10 then [''0123456789'' ! n]
      else str_nat (n div 10) @ [''0123456789'' ! (n mod 10)])"

definition str_int :: "int \<Rightarrow> string" where
  "str_int i = (if i < 0 then ''-'' @ str_nat (nat (- i)) else str_nat (nat i))"

text \<open>\<^verbatim>\<open>sub in s\<close> on text.\<close>

fun contains :: "string \<Rightarrow> string \<Rightarrow> bool" where
  "contains sub [] = (sub = [])"
| "contains sub (c # cs) = (take (length sub) (c # cs) = sub \<or> contains sub cs)"

text \<open>
  \<^verbatim>\<open>repr(s)\<close> of ASCII text, as Python 3 prints it: single quotes unless the text has
  a single quote and no double quote; the backslash and the chosen quote are escaped,
  line feed, carriage return and tab have their two-character escapes, and any other
  control character is written \<^verbatim>\<open>\xhh\<close>.
\<close>

definition hex2 :: "nat \<Rightarrow> string" where
  "hex2 n = [''0123456789abcdef'' ! (n div 16 mod 16), ''0123456789abcdef'' ! (n mod 16)]"

definition repr_char :: "char \<Rightarrow> char \<Rightarrow> string" where
  "repr_char q c =
     (if c = CHR 0x5C then [CHR 0x5C, CHR 0x5C]
      else if c = q then [CHR 0x5C, c]
      else if c = CHR 0x0A then [CHR 0x5C, CHR ''n'']
      else if c = CHR 0x0D then [CHR 0x5C, CHR ''r'']
      else if c = CHR 0x09 then [CHR 0x5C, CHR ''t'']
      else if (of_char c :: nat) < 32 \<or> (of_char c :: nat) = 127
        then [CHR 0x5C, CHR ''x''] @ hex2 (of_char c)
      else [c])"

definition py_repr :: "string \<Rightarrow> string" where
  "py_repr s =
     (let q = (if CHR 0x27 \<in> set s \<and> CHR 0x22 \<notin> set s then CHR 0x22 else CHR 0x27)
      in [q] @ concat (map (repr_char q) s) @ [q])"

text \<open>
  \<^verbatim>\<open>template.format(**kwargs)\<close> for templates whose replacement fields are plain
  names: doubled braces are literal braces, a field is replaced by the keyword of that
  name, a missing keyword raises \<^verbatim>\<open>KeyError\<close>, an empty or numeric field raises
  \<^verbatim>\<open>IndexError\<close> (there are no positional arguments), a single brace raises
  \<^verbatim>\<open>ValueError\<close>. Fields with an attribute, an index, a conversion or a format
  specification are outside the model; the model answers them with \<^verbatim>\<open>ValueError\<close>
  as well.
\<close>

definition emit :: "string \<Rightarrow> error + string \<Rightarrow> error + string" where
  "emit s r = (case r of Inl e \<Rightarrow> Inl e | Inr t \<Rightarrow> Inr (s @ t))"

definition field_value :: "(string \<times> string) list \<Rightarrow> string \<Rightarrow> error + string" where
  "field_value kw name =
     (if name = [] \<or> (\<forall>c \<in> set name. c \<in> set ''0123456789'')
        then Inl (IndexError ''Replacement index out of range for positional args tuple'')
      else case map_of kw name of
             None \<Rightarrow> Inl (KeyError name)
           | Some v \<Rightarrow> Inr v)"

fun format_text :: "(string \<times> string) list \<Rightarrow> string \<Rightarrow> error + string"
  and format_field :: "(string \<times> string) list \<Rightarrow> string \<Rightarrow> string \<Rightarrow> error + string" where
  "format_text kw [] = Inr []"
| "format_text kw (c # cs) =
     (if c = CHR ''{'' then
        (case cs of
           [] \<Rightarrow> Inl (ValueError ''Single { encountered in format string'')
         | d # ds \<Rightarrow> if d = CHR ''{'' then emit ''{'' (format_text kw ds)
                     else format_field kw [] cs)
      else if c = CHR ''}'' then
        (case cs of
           [] \<Rightarrow> Inl (ValueError ''Single } encountered in format string'')
         | d # ds \<Rightarrow> if d = CHR ''}'' then emit ''}'' (format_text kw ds)
                     else Inl (ValueError ''Single } encountered in format string''))
      else emit [c] (format_text kw cs))"
| "format_field kw acc [] = Inl (ValueError ''expected } before end of string'')"
| "format_field kw acc (c # cs) =
     (if c = CHR ''}'' then
        (case field_value kw (rev acc) of
           Inl e \<Rightarrow> Inl e
         | Inr v \<Rightarrow> emit v (format_text kw cs))
      else if c \<in> set ''{.[!:'' then Inl (ValueError ''format field outside the model'')
      else format_field kw (c # acc) cs)"

text \<open>Assignment into a keyword dictionary.\<close>

fun set_kw :: "(string \<times> string) list \<Rightarrow> string \<Rightarrow> string \<Rightarrow> (string \<times> string) list" where
  "set_kw [] key v = [(key, v)]"
| "set_kw ((k, u) # kw) key v = (if k = key then (k, v) # kw else (k, u) # set_kw kw key v)"

text \<open>
  Modelled from the spec: \<^verbatim>\<open>_gen_id\<close> of the connection class (outside the sources)
  is the spec's \<open>generate_unique_suffix\<close>, a suffix unique for the connection's
  lifetime; here the decimal text of a counter that the call advances. It is local to
  the client: no remote action is called.
\<close>

definition gen_id :: "handle \<Rightarrow> string comp" where
  "gen_id t =
     bind (get_connection t)
       (\<lambda>r w. case conns w r of
                 None \<Rightarrow> (Inl no_connection, w)
               | Some c \<Rightarrow>
                   (Inr (str_nat (next_id c)),
                    w\<lparr>conns := (conns w)(r := Some (c\<lparr>next_id := Suc (next_id c)\<rparr>))\<rparr>))"

text \<open>
  \<^verbatim>\<open>CASColumn.name\<close>: \<^verbatim>\<open>get_param('varlist')\<close> without a default raises
  \<^verbatim>\<open>KeyError\<close> when the parameter is missing; of a list the first entry is taken.
\<close>

definition column_name :: "handle \<Rightarrow> string comp" where
  "column_name t w =
     (case get_param (params t) ''varlist'' of
        None \<Rightarrow> (Inl (KeyError ''varlist''), w)
      | Some (PStr s) \<Rightarrow> (Inr s, w)
      | Some (PList a) \<Rightarrow>
          (case deref (heap w) a of
             [] \<Rightarrow> (Inl (IndexError ''list index out of range''), w)
           | x # xs \<Rightarrow> (Inr x, w)))"

text \<open>
  \<^verbatim>\<open>CASColumn.dtype\<close> reads \<^verbatim>\<open>self._columninfo['Type'][0]\<close>, that is, it calls the
  server; \<^verbatim>\<open>_is_character\<close> and \<^verbatim>\<open>_is_numeric\<close> test it.
\<close>

definition dtype :: "handle \<Rightarrow> string comp" where
  "dtype t =
     bind (columninfo t)
       (\<lambda>ci. case ci of [] \<Rightarrow> throw (KeyErrorPos 0) | (n, ty) # rest \<Rightarrow> ret ty)"

definition character_types :: "string list" where
  "character_types = [''char'', ''varchar'', ''binary'', ''varbinary'']"

definition is_character :: "handle \<Rightarrow> bool comp" where
  "is_character t = bind (dtype t) (\<lambda>ty. ret (ty \<in> set character_types))"

definition is_numeric :: "handle \<Rightarrow> bool comp" where
  "is_numeric t = bind (dtype t) (\<lambda>ty. ret (ty \<notin> set character_types))"

text \<open>
  A stored parameter as an argument of the \<^verbatim>\<open>append_*\<close> methods: the text, or the
  items of the list object as they are when the argument is read.
\<close>

definition arg_of :: "string list list \<Rightarrow> pval \<Rightarrow> arg" where
  "arg_of h v = (case v of PStr s \<Rightarrow> Item s | PList a \<Rightarrow> Items (map Item (deref h a)))"

text \<open>
  \<^verbatim>\<open>_to_expression\<close>: the name literal of the column, its \<^verbatim>\<open>compvars\<close> (default
  \<^verbatim>\<open>[]\<close>) and its \<^verbatim>\<open>comppgm\<close> (default \<^verbatim>\<open>''\<close>).
\<close>

definition to_expression :: "handle \<Rightarrow> (string \<times> arg \<times> arg) comp" where
  "to_expression t =
     bind (column_name t)
       (\<lambda>n w. (Inr (nlit n,
                    (case get_param (params t) ''compvars'' of
                       None \<Rightarrow> Items [] | Some v \<Rightarrow> arg_of (heap w) v),
                    (case get_param (params t) ''comppgm'' of
                       None \<Rightarrow> Item [] | Some v \<Rightarrow> arg_of (heap w) v)), w))"

text \<open>
  The operand of a column operator: a handle, text, or an integer. (Floating point
  operands and lists of operands are outside the model.) A handle comes with the text
  \<^verbatim>\<open>str\<close> gives for it: \<^verbatim>\<open>__str__\<close> composes that text with \<^verbatim>\<open>dict2kwargs\<close>, which is
  outside the sources, so the text is taken as given. It is read only when the handle is
  not a column.
\<close>

datatype operand = OpHandle handle string | OpText string | OpInt int

text \<open>
  The loop of \<^verbatim>\<open>_compute\<close> over its keyword operands: each operand is rendered to
  text, and a column operand contributes its computed variables and its program. A handle
  that is not a column is rendered by \<^verbatim>\<open>str\<close>.
\<close>

fun render_kwargs ::
  "bool \<Rightarrow> (string \<times> operand) list \<Rightarrow> ((string \<times> string) list \<times> arg list \<times> arg list) comp" where
  "render_kwargs use_quotes [] = ret ([], [], [])"
| "render_kwargs use_quotes ((key, v) # rest) =
     bind (case v of
             OpHandle c shown \<Rightarrow>
               if is_column c
               then bind (to_expression c) (\<lambda>(aexpr, acompvars, acomppgm). ret (aexpr, [acompvars], [acomppgm]))
               else ret (shown, [], [])
           | OpText s \<Rightarrow>
               ret (if use_quotes then [CHR 0x22] @ escape_string s @ [CHR 0x22] else s, [], [])
           | OpInt i \<Rightarrow> ret (str_int i, [], []))
       (\<lambda>(txt, cv, cp).
          bind (render_kwargs use_quotes rest)
            (\<lambda>(kw, cvs, cps). ret ((key, txt) # kw, cv @ cvs, cp @ cps)))"

text \<open>\<^verbatim>\<open>outname in self.get_param('compvars', [])\<close>: membership in a list, substring of a text.\<close>

definition in_compvars :: "handle \<Rightarrow> string \<Rightarrow> bool comp" where
  "in_compvars t outname w =
     (Inr (case get_param (params t) ''compvars'' of
             None \<Rightarrow> False
           | Some (PStr s) \<Rightarrow> contains outname s
           | Some (PList a) \<Rightarrow> outname \<in> set (deref (heap w) a)), w)"

text \<open>
  \<^verbatim>\<open>_compute\<close>: a deep copy of the column whose only visible column is a newly named
  computed column; the statement that computes it is the formatted template, after the
  programs of the operands.
\<close>

definition compute ::
  "handle \<Rightarrow> string \<Rightarrow> string \<Rightarrow> bool \<Rightarrow> arg list \<Rightarrow> arg list \<Rightarrow> bool \<Rightarrow> string option \<Rightarrow>
   (string \<times> operand) list \<Rightarrow> handle comp" where
  "compute t funcname code use_quotes extra_compvars extra_comppgm add_length dtype_opt operands =
     bind (deep_copy t)
       (\<lambda>out0. bind (gen_id t)
       (\<lambda>uid. let outname = ''_'' @ funcname @ ''_'' @ uid @ ''_'' in
         bind (store_list out0 ''varlist'' [outname])
       (\<lambda>out. bind (in_compvars t outname)
       (\<lambda>present. if present then ret out else
         bind (render_kwargs use_quotes operands)
       (\<lambda>(kw, cvs, cps). bind (column_name t)
       (\<lambda>nm.
          let kw2 = set_kw (set_kw kw ''value'' (nlit nm)) ''out'' (nlit outname);
              code1 = (if contains ''{out}'' code then code else ''{out} = '' @ code);
              code2 = (if ends_statement code1 then code1 else code1 @ ''; '');
              lengths = (case dtype_opt of
                           Some d \<Rightarrow> if d \<noteq> [] then [Item (''length '' @ nlit outname @ '' '' @ d)]
                                     else if add_length then [Item (''length '' @ nlit outname @ '' varchar(*)'')]
                                     else []
                         | None \<Rightarrow> if add_length then [Item (''length '' @ nlit outname @ '' varchar(*)'')]
                                   else [])
          in case format_text kw2 code2 of
               Inl e \<Rightarrow> throw e
             | Inr stmt \<Rightarrow>
                 append_computed_columns out
                   (Items ([Item outname]
                           @ (if extra_compvars \<noteq> [] then [Items extra_compvars] else []) @ cvs))
                   (Items (lengths
                           @ (if extra_comppgm \<noteq> [] then [Items extra_comppgm] else []) @ cps
                           @ [Item stmt]))))))))"

text \<open>\<^verbatim>\<open>OPERATOR_NAMES.get(operator, operator)\<close>.\<close>

definition operator_name :: "string \<Rightarrow> string" where
  "operator_name operator =
     (case map_of
        [(''+'', ''add''), (''-'', ''sub''), (''*'', ''mul''), (''/'', ''truediv''),
         (''//'', ''floordiv''), (''**'', ''pow''), (''%'', ''mod''), (''||'', ''cat''),
         (''>'', ''gt''), (''<'', ''lt''), (''>='', ''ge''), (''<='', ''le''),
         (''=='', ''eq''), (''='', ''eq''), (''^='', ''ne''), (''!='', ''ne'')] operator of
        Some n \<Rightarrow> n
      | None \<Rightarrow> operator)"

text \<open>
  \<^verbatim>\<open>_compare\<close>, behind \<^verbatim>\<open>lt\<close>, \<^verbatim>\<open>gt\<close>, \<^verbatim>\<open>le\<close>, \<^verbatim>\<open>ge\<close>, \<^verbatim>\<open>ne\<close>, \<^verbatim>\<open>eq\<close> and the
  operators \<^verbatim>\<open><\<close>, \<^verbatim>\<open>>\<close>, \<^verbatim>\<open><=\<close>, \<^verbatim>\<open>>=\<close>, \<^verbatim>\<open>!=\<close>, \<^verbatim>\<open>==\<close>, \<^verbatim>\<open>&\<close>, \<^verbatim>\<open>|\<close>
  of a column.
\<close>

definition compare :: "handle \<Rightarrow> string \<Rightarrow> operand \<Rightarrow> handle comp" where
  "compare t operator other =
     bind (to_expression t)
       (\<lambda>(left, lcompvars, lcomppgm).
          bind (case other of
                  OpHandle c shown \<Rightarrow>
                    if is_column c
                    then bind (to_expression c) (\<lambda>(r, rcompvars, rcomppgm). ret (r, [rcompvars], [rcomppgm]))
                    else ret (shown, [], [])
                | OpText s \<Rightarrow> ret (py_repr s, [], [])
                | OpInt i \<Rightarrow> ret (str_int i, [], []))
            (\<lambda>(right, compvars, comppgm).
               compute t (operator_name operator)
                 (''('' @ left @ '' '' @ operator @ '' '' @ right @ '')'')
                 True compvars comppgm False None []))"

text \<open>
  The arithmetic methods that are closed to character columns (\<^verbatim>\<open>sub\<close>, \<^verbatim>\<open>div\<close>,
  \<^verbatim>\<open>floordiv\<close>, \<^verbatim>\<open>mod\<close>, \<^verbatim>\<open>pow\<close>, ...) share one shape: ask
  \<^verbatim>\<open>_is_character()\<close>, raise \<^verbatim>\<open>AttributeError\<close> with the method's name for a
  character column, and otherwise compute the template with the operand.
\<close>

definition numeric_method :: "string \<Rightarrow> string \<Rightarrow> string \<Rightarrow> handle \<Rightarrow> operand \<Rightarrow> handle comp" where
  "numeric_method attr funcname template t other =
     bind (is_character t)
       (\<lambda>character. if character then throw (AttributeError attr)
          else compute t funcname template True [] [] False None [(''other'', other)])"

definition sub :: "handle \<Rightarrow> operand \<Rightarrow> handle comp" where
  "sub = numeric_method ''sub'' ''sub'' ''({value}) - ({other})''"

definition div_method :: "handle \<Rightarrow> operand \<Rightarrow> handle comp" where
  "div_method = numeric_method ''div'' ''div'' ''({value}) / ({other})''"

definition floordiv :: "handle \<Rightarrow> operand \<Rightarrow> handle comp" where
  "floordiv = numeric_method ''floordiv'' ''div'' ''floor(({value}) / ({other}))''"

definition mod_method :: "handle \<Rightarrow> operand \<Rightarrow> handle comp" where
  "mod_method = numeric_method ''mod'' ''mod'' ''mod({value}, {other})''"

definition pow :: "handle \<Rightarrow> operand \<Rightarrow> handle comp" where
  "pow = numeric_method ''pow'' ''pow'' ''({value})**({other})''"

section \<open>Selection with square brackets\<close>

text \<open>
  \<^verbatim>\<open>_to_column\<close>: a column handle built from a deep copy of the table, with the
  \<^verbatim>\<open>varlist\<close> parameter replaced by the one name (or, without a name, by the first
  entry of a non-empty list \<^verbatim>\<open>varlist\<close>).
\<close>

definition to_column :: "handle \<Rightarrow> string option \<Rightarrow> handle comp" where
  "to_column t varname =
     bind (deep_copy t)
       (\<lambda>tbl. bind (case varname of
                       Some v \<Rightarrow> store_list tbl ''varlist'' [v]
                     | None \<Rightarrow>
                         (\<lambda>w. case get_param (params tbl) ''varlist'' of
                                 Some (PList a) \<Rightarrow>
                                   (case deref (heap w) a of
                                      [] \<Rightarrow> (Inr tbl, w)
                                    | x # xs \<Rightarrow> store_list tbl ''varlist'' [x] w)
                               | _ \<Rightarrow> (Inr tbl, w)))
       (\<lambda>col w. (Inr \<lparr>params = params col, action_defaults = action_defaults col,
                        connection = reconnect tbl w, is_column = True\<rparr>, w)))"

text \<open>Python's \<^verbatim>\<open>xs[i]\<close>: a negative index counts from the end.\<close>

definition py_nth :: "'a list \<Rightarrow> int \<Rightarrow> error + 'a" where
  "py_nth xs i =
     (let n = int (length xs); j = (if i < 0 then n + i else i)
      in if 0 \<le> j \<and> j < n then Inr (xs ! nat j) else Inl (IndexError ''list index out of range''))"

text \<open>An entry of a list selection: a column name or a position.\<close>

datatype colkey = ByName string | ByPos int

fun resolve_keys :: "string list \<Rightarrow> colkey list \<Rightarrow> error + string list" where
  "resolve_keys cols [] = Inr []"
| "resolve_keys cols (ByName k # ks) =
     (case resolve_keys cols ks of Inl e \<Rightarrow> Inl e | Inr ns \<Rightarrow> Inr (k # ns))"
| "resolve_keys cols (ByPos i # ks) =
     (case py_nth cols i of
        Inl e \<Rightarrow> Inl e
      | Inr k \<Rightarrow> (case resolve_keys cols ks of Inl e \<Rightarrow> Inl e | Inr ns \<Rightarrow> Inr (k # ns)))"

text \<open>
  The names of a selection that match no visible column without regard to case, and
  the statement that binds such a name to the missing value.
\<close>

definition unknown_names :: "string list \<Rightarrow> string list \<Rightarrow> string list" where
  "unknown_names cols names = filter (\<lambda>k. lower k \<notin> set (map lower cols)) names"

definition missing_statement :: "string \<Rightarrow> string" where
  "missing_statement k = nlit k @ '' = .; ''"

text \<open>\<^verbatim>\<open>tbl[[k1, ..., kn]]\<close>: the second branch of \<^verbatim>\<open>CASTable.__getitem__\<close>.\<close>

definition getitem_list :: "handle \<Rightarrow> colkey list \<Rightarrow> handle comp" where
  "getitem_list t keys =
     bind (deep_copy t)
       (\<lambda>out. bind (columns out)
       (\<lambda>cols. case resolve_keys cols keys of
                  Inl e \<Rightarrow> throw e
                | Inr varlist \<Rightarrow>
                    bind (store_list out ''varlist'' varlist)
                      (\<lambda>out'. if unknown_names cols varlist \<noteq> []
                               then append_computed_columns out'
                                      (Items (map Item (unknown_names cols varlist)))
                                      (Items (map (\<lambda>k. Item (missing_statement k))
                                                (unknown_names cols varlist)))
                               else ret out')))"

text \<open>Truthiness of an argument read from a parameter: a non-empty text or list.\<close>

definition truthy :: "arg \<Rightarrow> bool" where
  "truthy a = (case a of Item s \<Rightarrow> s \<noteq> [] | Items xs \<Rightarrow> xs \<noteq> [])"

text \<open>\<^verbatim>\<open>tbl[column]\<close>: the third branch, a filter by a boolean column.\<close>

definition getitem_column :: "handle \<Rightarrow> handle \<Rightarrow> handle comp" where
  "getitem_column t key =
     bind (deep_copy t)
       (\<lambda>out. bind (to_expression key)
       (\<lambda>(expr, ecompvars, ecomppgm). bind (append_where out [Item expr])
       (\<lambda>out1. bind (if truthy ecompvars then append_compvars out1 [ecompvars] else ret out1)
       (\<lambda>out2. bind (if truthy ecomppgm then append_comppgm out2 [ecomppgm] else ret out2)
       (\<lambda>out3. if get_param (params out3) ''varlist'' = None
                then bind (columns t) (store_list out3 ''varlist'')
                else ret out3)))))"

text \<open>
  The argument of the location accessors: an integer, a slice or something else, alone
  or paired with a column selector. The column selectors of the model are a position
  and a name (lists and slices of columns are outside the model).
\<close>

datatype rowsel =
    RowInt int
  | RowSlice "int option" "int option" "int option"
  | RowList
  | RowOther

datatype colsel = ColPos int | ColName string

datatype position = Rows_only rowsel | Rows_cols rowsel colsel

datatype outtype = OutTable | OutRow | OutColumn | OutScalar

record selection =
  sel_start :: int
  sel_stop :: int
  sel_varlist :: "colsel list option"

text \<open>\<^verbatim>\<open>step and step != 1\<close>.\<close>

definition bad_step :: "int option \<Rightarrow> bool" where
  "bad_step step = (case step of None \<Rightarrow> False | Some k \<Rightarrow> k \<noteq> 0 \<and> k \<noteq> 1)"

text \<open>
  \<^verbatim>\<open>_get_table_selection\<close>. A bare slice takes \<^verbatim>\<open>start or 0\<close> and
  \<^verbatim>\<open>stop or (table._numrows - 1)\<close>; in a pair only a missing bound is filled in.
\<close>

definition get_table_selection :: "handle \<Rightarrow> position \<Rightarrow> (selection \<times> outtype) comp" where
  "get_table_selection table args =
     (case args of
        Rows_cols rows cols \<Rightarrow>
          (case rows of
             RowList \<Rightarrow> throw (TypeError ''Selecting and array of indexes is not supported'')
           | RowSlice start stop step \<Rightarrow>
               if bad_step step then throw (TypeError ''Step values in slices are not supported'')
               else bind (case stop of None \<Rightarrow> bind (numrows table) (\<lambda>n. ret (n - 1))
                                     | Some e \<Rightarrow> ret e)
                      (\<lambda>rowend. ret (\<lparr>sel_start = (case start of None \<Rightarrow> 0 | Some s \<Rightarrow> s),
                                       sel_stop = rowend, sel_varlist = Some [cols]\<rparr>, OutColumn))
           | RowInt i \<Rightarrow>
               ret (\<lparr>sel_start = i, sel_stop = i, sel_varlist = Some [cols]\<rparr>, OutScalar)
           | RowOther \<Rightarrow> throw (TypeError ''Unknown type for row indexing''))
      | Rows_only (RowSlice start stop step) \<Rightarrow>
          if bad_step step then throw (TypeError ''Step values in row slices are not supported'')
          else bind (case stop of
                       None \<Rightarrow> bind (numrows table) (\<lambda>n. ret (n - 1))
                     | Some e \<Rightarrow> if e = 0 then bind (numrows table) (\<lambda>n. ret (n - 1)) else ret e)
                 (\<lambda>rowend. ret (\<lparr>sel_start = (case start of None \<Rightarrow> 0 | Some s \<Rightarrow> s),
                                  sel_stop = rowend, sel_varlist = None\<rparr>, OutTable))
      | Rows_only (RowInt i) \<Rightarrow>
          ret (\<lparr>sel_start = i, sel_stop = i, sel_varlist = None\<rparr>, OutRow)
      | Rows_only other \<Rightarrow> throw (TypeError ''Unknown type for table indexing''))"

text \<open>The three location accessors \<^verbatim>\<open>ix\<close>, \<^verbatim>\<open>iloc\<close> and \<^verbatim>\<open>loc\<close>.\<close>

datatype accessor = Ix | Iloc | Loc

text \<open>What an accessor returns: the data of one cell or of one row, as fetched.\<close>

datatype selected = Scalar "string list list" | Row "string list list"

text \<open>
  The loop that builds the \<^verbatim>\<open>varlist\<close> of the selection: a position is looked up
  in \<^verbatim>\<open>tbl.columns\<close>, which is read when the names kept so far (\<open>cache\<close>) are empty.
\<close>

fun build_varlist :: "handle \<Rightarrow> string list \<Rightarrow> colsel list \<Rightarrow> string list comp" where
  "build_varlist tbl cache [] = ret []"
| "build_varlist tbl cache (ColName n # items) =
     bind (build_varlist tbl cache items) (\<lambda>ns. ret (n # ns))"
| "build_varlist tbl cache (ColPos i # items) =
     bind (if cache = [] then columns tbl else ret cache)
       (\<lambda>cols. case py_nth cols i of
                  Inl e \<Rightarrow> throw e
                | Inr n \<Rightarrow> bind (build_varlist tbl cols items) (\<lambda>ns. ret (n # ns)))"

text \<open>
  \<^verbatim>\<open>CASTableAnyLocationAccessor.__getitem__\<close>. A column handle takes one indexer and
  pairs it with column 0. A selection that is a table or a column is refused; \<^verbatim>\<open>ix\<close>
  refuses negative bounds; the other accessors resolve them against the row count read
  from the server. The fetch is made with \<^verbatim>\<open>from = start + 1\<close> and \<^verbatim>\<open>to = stop\<close>.
\<close>

definition resolve_negative :: "handle \<Rightarrow> int \<Rightarrow> int \<Rightarrow> (int \<times> int) comp" where
  "resolve_negative tbl start stop =
     (if start < 0
      then bind (numrows tbl)
             (\<lambda>n. ret (start + n, if stop < 0 then stop + n else stop))
      else if stop < 0 then bind (numrows tbl) (\<lambda>n. ret (start, stop + n))
      else ret (start, stop))"

definition accessor_getitem :: "accessor \<Rightarrow> handle \<Rightarrow> position \<Rightarrow> selected comp" where
  "accessor_getitem acc t pos =
     bind (if is_column t
           then (case pos of
                   Rows_cols rows cols \<Rightarrow> throw (TypeError ''Too many indexers'')
                 | Rows_only rows \<Rightarrow> ret (Rows_cols rows (ColPos 0)))
           else ret pos)
       (\<lambda>pos'. bind (get_table_selection t pos')
       (\<lambda>(sel, outtype).
          if outtype = OutColumn \<or> outtype = OutTable
          then throw (TypeError ''Index must result in either a scalar or a row'')
          else if acc = Ix \<and> sel_start sel < 0 then throw (KeyErrorPos (sel_start sel))
          else if acc = Ix \<and> sel_stop sel < 0 then throw (KeyErrorPos (sel_stop sel))
          else
            bind (resolve_negative t (sel_start sel) (sel_stop sel))
              (\<lambda>(start, stop).
                 bind (case sel_varlist sel of
                         None \<Rightarrow> ret t
                       | Some items \<Rightarrow>
                           bind (copy_handle t False)
                             (\<lambda>tbl. bind (build_varlist tbl [] items) (store_list tbl ''varlist'')))
                   (\<lambda>tbl. bind (retrieve_ui tbl ''table.fetch''
                                  [(''sastypes'', KwBool False), (''noindex'', KwBool True),
                                   (''from'', KwInt (start + 1)), (''to'', KwInt stop)])
                   (\<lambda>out. bind (fetched_rows out)
                   (\<lambda>rows. ret (if outtype = OutScalar then Scalar rows else Row rows)))))))"

text \<open>
  The key of \<^verbatim>\<open>CASTable.__getitem__\<close> and its result: a handle, or what the
  \<^verbatim>\<open>ix\<close> accessor returns.
\<close>

datatype key =
    KeyStr string
  | KeyList "colkey list"
  | KeyHandle handle
  | KeySlice "int option" "int option" "int option"
  | KeyInt int
  | KeyOther

datatype item = ItemHandle handle | ItemSelected selected

definition key_error :: "key \<Rightarrow> error" where
  "key_error k =
     (case k of KeyStr s \<Rightarrow> KeyError s | KeyInt i \<Rightarrow> KeyErrorPos i | _ \<Rightarrow> KeyError ''<object>'')"

definition getitem :: "handle \<Rightarrow> key \<Rightarrow> item comp" where
  "getitem t k =
     (case k of
        KeyStr s \<Rightarrow>
          if \<not> is_column t
          then bind (columns t)
                 (\<lambda>cols. if lower s \<notin> set (map lower cols) then throw (KeyError s)
                          else bind (to_column t (Some s)) (\<lambda>c. ret (ItemHandle c)))
          else throw (key_error k)
      | KeyList keys \<Rightarrow>
          if \<not> is_column t then bind (getitem_list t keys) (\<lambda>out. ret (ItemHandle out))
          else throw (key_error k)
      | KeyHandle c \<Rightarrow>
          if is_column c then bind (getitem_column t c) (\<lambda>out. ret (ItemHandle out))
          else throw (key_error k)
      | KeySlice start stop step \<Rightarrow>
          bind (accessor_getitem Ix t (Rows_only (RowSlice start stop step)))
            (\<lambda>r. ret (ItemSelected r))
      | KeyInt i \<Rightarrow>
          if is_column t
          then bind (accessor_getitem Ix t (Rows_only (RowInt i))) (\<lambda>r. ret (ItemSelected r))
          else throw (key_error k)
      | KeyOther \<Rightarrow> throw (key_error k))"

section \<open>Sorting and equality\<close>

text \<open>
  Modelled from the spec: \<^verbatim>\<open>get_action_params\<close> and \<^verbatim>\<open>set_action_params\<close> of
  \<^verbatim>\<open>ActionParamManager\<close> read and replace the defaults kept for one action.
  \<^verbatim>\<open>sort_values\<close> appends one sort specification per column to the \<^verbatim>\<open>sortby\<close>
  default of \<^verbatim>\<open>table.fetch\<close>, on \<^verbatim>\<open>self\<close> or on a deep copy.
\<close>

definition get_action_params :: "action_params \<Rightarrow> string \<Rightarrow> (string \<times> sortspec list) list" where
  "get_action_params ap name = (case map_of ap name of None \<Rightarrow> [] | Some d \<Rightarrow> d)"

definition set_action_params ::
  "action_params \<Rightarrow> string \<Rightarrow> (string \<times> sortspec list) list \<Rightarrow> action_params" where
  "set_action_params ap name d = (name, d) # filter (\<lambda>(k, v). k \<noteq> name) ap"

definition add_sortby :: "handle \<Rightarrow> string \<times> bool \<Rightarrow> handle" where
  "add_sortby out colasc =
     (let fetch = get_action_params (action_defaults out) ''table.fetch'';
          sortby = (case map_of fetch ''sortby'' of None \<Rightarrow> [] | Some l \<Rightarrow> l);
          spec = \<lparr>sort_name = fst colasc,
                  sort_order = (if snd colasc then ''ASCENDING'' else ''DESCENDING''),
                  sort_formatted = ''RAW''\<rparr>
      in out\<lparr>action_defaults :=
               set_action_params (action_defaults out) ''table.fetch''
                 ((''sortby'', sortby @ [spec]) # filter (\<lambda>(k, v). k \<noteq> ''sortby'') fetch)\<rparr>)"

definition sort_values :: "handle \<Rightarrow> string list \<Rightarrow> bool + bool list \<Rightarrow> bool \<Rightarrow> handle comp" where
  "sort_values t by ascending inplace =
     bind (if inplace then ret t else deep_copy t)
       (\<lambda>out. ret (foldl add_sortby out
                     (zip by (case ascending of
                                Inl asc \<Rightarrow> replicate (length by) asc
                              | Inr ascs \<Rightarrow> ascs))))"

text \<open>
  \<^verbatim>\<open>CASTable.__eq__\<close>: true exactly when the other object is a handle and the two
  parameter dictionaries are equal. Python compares dictionaries by their key/value
  pairs and lists by their contents.
\<close>

definition table_eq :: "handle \<Rightarrow> operand \<Rightarrow> world \<Rightarrow> bool" where
  "table_eq t other w =
     (case other of
        OpHandle u shown \<Rightarrow> set (bundle_of (heap w) (params t)) = set (bundle_of (heap w) (params u))
      | _ \<Rightarrow> False)"

text \<open>
  The operator \<^verbatim>\<open>a == other\<close>. \<^verbatim>\<open>CASColumn\<close> overrides \<^verbatim>\<open>__eq__\<close> with the
  element-wise comparison \<^verbatim>\<open>eq\<close>, which builds a computed column. Python asks the
  right operand first when its class is a subclass of the left operand's class that
  overrides the method, so a column on the right of a table handle answers too; the left
  operand is then the operand of the comparison, which is why its text is an argument.
\<close>

datatype eq_result = EqBool bool | EqColumn handle

definition handle_eq :: "handle \<Rightarrow> string \<Rightarrow> operand \<Rightarrow> eq_result comp" where
  "handle_eq t shown other =
     (if is_column t then bind (compare t ''='' other) (\<lambda>c. ret (EqColumn c))
      else case other of
             OpHandle u ushown \<Rightarrow>
               if is_column u then bind (compare u ''='' (OpHandle t shown)) (\<lambda>c. ret (EqColumn c))
               else (\<lambda>w. (Inr (EqBool (table_eq t other w)), w))
           | _ \<Rightarrow> (\<lambda>w. (Inr (EqBool (table_eq t other w)), w)))"

section \<open>Observations\<close>

text \<open>The pending \<^verbatim>\<open>where\<close> parameter of the handle a computation returns.\<close>

definition pending_where :: "handle comp \<Rightarrow> world \<Rightarrow> error + pval option" where
  "pending_where m w =
     (case fst (m w) of Inl e \<Rightarrow> Inl e | Inr t \<Rightarrow> Inr (get_param (params t) ''where''))"


text \<open>A computation that never calls the server: it leaves the log of remote calls as it was.\<close>

definition silent :: "'a comp \<Rightarrow> bool" where
  "silent m \<longleftrightarrow> (\<forall>w. calls (snd (m w)) = calls w)"

section \<open>References and well-formed bundles\<close>

text \<open>
  The list objects a bundle refers to. A bundle is well formed in a heap when each of
  them exists there, which Python guarantees for every reference it hands out.
\<close>

fun refs :: "params \<Rightarrow> addr list" where
  "refs [] = []"
| "refs ((k, PStr s) # ps) = refs ps"
| "refs ((k, PList a) # ps) = a # refs ps"

definition wf_params :: "string list list \<Rightarrow> params \<Rightarrow> bool" where
  "wf_params h ps \<longleftrightarrow> (\<forall>a \<in> set (refs ps). a < length h)"

text \<open>A bundle all of whose list objects were created after the heap \<open>h0\<close> was taken.\<close>

definition fresh_refs :: "string list list \<Rightarrow> string list list \<Rightarrow> params \<Rightarrow> bool" where
  "fresh_refs h0 h ps \<longleftrightarrow> (\<forall>a \<in> set (refs ps). length h0 \<le> a \<and> a < length h)"

text \<open>Lookup in a dereferenced bundle, as \<open>get_param\<close> does in the stored one.\<close>

fun lookup_value :: "(string \<times> pvalue) list \<Rightarrow> string \<Rightarrow> pvalue option" where
  "lookup_value [] key = None"
| "lookup_value ((k, v) # b) key = (if lower k = lower key then Some v else lookup_value b key)"

text \<open>
  The request \<^verbatim>\<open>_columninfo\<close> sends for a handle, and the type the server reports
  for the first column of the handle in its answer, which is what \<^verbatim>\<open>dtype\<close> reads.
\<close>

definition columninfo_request :: "handle \<Rightarrow> world \<Rightarrow> request" where
  "columninfo_request t w =
     \<lparr>action = ''table.columninfo'', table_bundle = bundle_of (heap w) (params t),
      kwargs = ui_kwargs\<rparr>"

definition reported_type :: "conn \<Rightarrow> handle \<Rightarrow> world \<Rightarrow> string option" where
  "reported_type c t w =
     (case server c (columninfo_request t w) of
        ColumnInfo ((n, ty) # rest) \<Rightarrow> Some ty
      | _ \<Rightarrow> None)"


section \<open>Example objects\<close>

text \<open>
  A server with three columns and ten rows, a connection to it at address 0, and a
  handle on the table \<^verbatim>\<open>cars\<close>; used to instantiate the theorems below.
\<close>

definition demo_catalog :: "(string \<times> string) list" where
  "demo_catalog = [(''a'', ''double''), (''b'', ''double''), (''s'', ''varchar'')]"

definition demo_server :: "request \<Rightarrow> response" where
  "demo_server rq =
     (if action rq = ''table.columninfo'' then
        ColumnInfo (case map_of (table_bundle rq) ''varlist'' of
                      Some (VList vs) \<Rightarrow> filter (\<lambda>(n, ty). n \<in> set vs) demo_catalog
                    | _ \<Rightarrow> demo_catalog)
      else if action rq = ''simple.numrows'' then NumRows 10
      else if action rq = ''table.fetch'' then Rows [[''1'', ''2'', ''x'']]
      else Failure ''unknown action'')"

definition demo_conn :: conn where
  "demo_conn = \<lparr>next_id = 0, server = demo_server\<rparr>"

definition demo_world :: world where
  "demo_world = \<lparr>heap = [], conns = (\<lambda>r. if r = 0 then Some demo_conn else None), calls = []\<rparr>"

definition demo_table :: handle where
  "demo_table =
     \<lparr>params = [(''name'', PStr ''cars'')], action_defaults = [], connection = Some 0,
      is_column = False\<rparr>"

definition offline_table :: handle where
  "offline_table =
     \<lparr>params = [(''name'', PStr ''cars'')], action_defaults = [], connection = None,
      is_column = False\<rparr>"

text \<open>A handle that lists its visible columns, in a world that holds the list object.\<close>

definition listed_world :: world where
  "listed_world = \<lparr>heap = [[''a'', ''b'']], conns = (\<lambda>r. if r = 0 then Some demo_conn else None), calls = []\<rparr>"

definition listed_table :: handle where
  "listed_table =
     \<lparr>params = [(''name'', PStr ''cars''), (''varlist'', PList 0)], action_defaults = [],
      connection = Some 0, is_column = False\<rparr>"

text \<open>
  Two column handles of the table \<^verbatim>\<open>cars\<close>: the character column \<^verbatim>\<open>s\<close> and the
  numeric column \<^verbatim>\<open>a\<close>.
\<close>

definition column_world :: world where
  "column_world = \<lparr>heap = [[''s''], [''a'']], conns = (\<lambda>r. if r = 0 then Some demo_conn else None), calls = []\<rparr>"

definition text_column :: handle where
  "text_column =
     \<lparr>params = [(''name'', PStr ''cars''), (''varlist'', PList 0)], action_defaults = [],
      connection = Some 0, is_column = True\<rparr>"

definition number_column :: handle where
  "number_column =
     \<lparr>params = [(''name'', PStr ''cars''), (''varlist'', PList 1)], action_defaults = [],
      connection = Some 0, is_column = True\<rparr>"

section \<open>Properties: connection resolution\<close>

lemma get_connection_world: "snd (get_connection t w) = w"
  by (simp add: get_connection_def split: option.splits)

lemma retrieve_no_connection:
  "fst (get_connection t w) = Inl e \<Longrightarrow> retrieve t act kw w = (Inl e, w)"
  by (auto simp: retrieve_def get_connection_def split: option.splits)

lemma retrieve_ui_no_connection:
  "fst (get_connection t w) = Inl e \<Longrightarrow> retrieve_ui t act kw w = (Inl e, w)"
  by (simp add: retrieve_ui_def bind_def retrieve_no_connection)

text \<open>
  Claim C7. A handle whose connection was never set or was set to \<^verbatim>\<open>None\<close>, and a
  handle whose connection object has been released, make \<^verbatim>\<open>get_connection\<close> raise
  the no-connection error, and a remote call through the handle raises the same error
  without any call being made; with a live connection registered, \<^verbatim>\<open>get_connection\<close>
  returns that connection object.
\<close>

theorem get_connection_resolution:
  "(connection t = None \<longrightarrow>
      get_connection t w = (Inl no_connection, w) \<and>
      retrieve_ui t act kw w = (Inl no_connection, w)) \<and>
   get_connection (set_connection t None) w = (Inl no_connection, w) \<and>
   retrieve_ui (set_connection t None) act kw w = (Inl no_connection, w) \<and>
   get_connection (set_connection t (Some r)) (release r w) = (Inl no_connection, release r w) \<and>
   retrieve_ui (set_connection t (Some r)) act kw (release r w) = (Inl no_connection, release r w) \<and>
   (conns w r = Some c \<longrightarrow> get_connection (set_connection t (Some r)) w = (Inr r, w))"
proof -
  have none: "get_connection t' w' = (Inl no_connection, w')" if "connection t' = None"
    for t' :: handle and w'
    using that by (simp add: get_connection_def)
  have gone: "get_connection t' w' = (Inl no_connection, w')"
    if "connection t' = Some r" "conns w' r = None" for t' :: handle and w'
    using that by (simp add: get_connection_def)
  have call: "retrieve_ui t' act kw w' = (Inl no_connection, w')"
    if "get_connection t' w' = (Inl no_connection, w')" for t' :: handle and w'
    using that by (simp add: retrieve_ui_no_connection)
  have unset: "connection (set_connection t None) = None"
    by (simp add: set_connection_def)
  have dead: "connection (set_connection t (Some r)) = Some r" "conns (release r w) r = None"
    by (simp_all add: set_connection_def release_def)
  have live: "get_connection (set_connection t (Some r)) w = (Inr r, w)" if "conns w r = Some c"
    using that by (simp add: get_connection_def set_connection_def)
  show ?thesis
    using none call none [OF unset] call [OF none [OF unset]]
      gone [OF dead] call [OF gone [OF dead]] live
    by blast
qed

theorem get_connection_resolution_witness:
  "get_connection offline_table demo_world = (Inl no_connection, demo_world) \<and>
   retrieve_ui offline_table ''table.fetch'' [] demo_world = (Inl no_connection, demo_world) \<and>
   get_connection (set_connection offline_table (Some 0)) (release 0 demo_world)
     = (Inl no_connection, release 0 demo_world) \<and>
   get_connection (set_connection offline_table (Some 0)) demo_world = (Inr 0, demo_world)"
proof -
  have absent: "connection offline_table = None"
    by (simp add: offline_table_def)
  have live: "conns demo_world 0 = Some demo_conn"
    by (simp add: demo_world_def)
  show ?thesis
    using get_connection_resolution
      [of offline_table demo_world "''table.fetch''" "[]" 0 demo_conn] absent live
    by simp
qed

section \<open>Properties: filters accumulate\<close>

lemma get_param_set_param [simp]: "get_param (set_param ps k v) k = Some v"
  by (induction ps) auto

lemma strip_wrap [simp]: "strip (wrap_condition e) = wrap_condition e"
  by (simp add: strip_def rstrip_def wrap_condition_def is_space_def)

lemma wrap_inj [simp]: "wrap_condition a = wrap_condition b \<longleftrightarrow> a = b"
  by (simp add: wrap_condition_def)

lemma strip_nonempty: "strip e \<noteq> [] \<Longrightarrow> e \<noteq> []"
  by (auto simp: strip_def rstrip_def)

lemma append_where_fresh:
  "get_param (params t) ''where'' = None \<Longrightarrow> strip e \<noteq> [] \<Longrightarrow>
   append_where t [Item e] w =
     (Inr (t\<lparr>params := set_param (params t) ''where'' (PStr (wrap_condition e))\<rparr>),
      w\<lparr>heap := heap w @ [[e]]\<rparr>)"
  by (frule strip_nonempty)
    (simp add: append_where_def append_where_text_def param_as_list_def bind_def alloc_def
      list_extend_def read_list_def ret_def new_items_def deref_def get_unique_def)

lemma append_where_stored:
  "get_param (params t) ''where'' = Some (PStr s) \<Longrightarrow> strip e \<noteq> [] \<Longrightarrow> strip s \<noteq> [] \<Longrightarrow>
   append_where t [Item e] w =
     (Inr (t\<lparr>params := set_param (params t) ''where''
             (PStr (if e = s then wrap_condition s
                    else wrap_condition s @ '' and '' @ wrap_condition e))\<rparr>),
      w\<lparr>heap := heap w @ [[s, e]]\<rparr>)"
  by (frule strip_nonempty)
    (simp add: append_where_def append_where_text_def param_as_list_def bind_def alloc_def
      list_extend_def read_list_def ret_def new_items_def deref_def get_unique_def)

lemma deepcopy_params_text:
  "get_param (fst (deepcopy_params ps memo h)) key =
     (case get_param ps key of
        None \<Rightarrow> None
      | Some (PStr s) \<Rightarrow> Some (PStr s)
      | Some (PList a) \<Rightarrow> get_param (fst (deepcopy_params ps memo h)) key)"
  by (induction ps memo h rule: deepcopy_params.induct)
     (auto split: prod.splits option.splits pval.splits)

lemma deep_copy_where:
  "get_param (params t) ''where'' = None \<Longrightarrow>
   \<exists>t' w'. deep_copy t w = (Inr t', w') \<and> get_param (params t') ''where'' = None"
  using deepcopy_params_text [of "params t" "[]" "heap w" "''where''"]
  by (auto simp: deep_copy_def split: prod.splits)

lemma deep_copy_where_text:
  "get_param (params t) ''where'' = Some (PStr s) \<Longrightarrow>
   \<exists>t' w'. deep_copy t w = (Inr t', w') \<and> get_param (params t') ''where'' = Some (PStr s)"
  using deepcopy_params_text [of "params t" "[]" "heap w" "''where''"]
  by (auto simp: deep_copy_def split: prod.splits)

lemma query_fresh:
  assumes "get_param (params t) ''where'' = None" "strip e \<noteq> []"
  shows "\<exists>t' w'. query t e False ''cas'' w = (Inr t', w') \<and>
           get_param (params t') ''where'' = Some (PStr (wrap_condition e))"
proof -
  obtain t1 w1 where c: "deep_copy t w = (Inr t1, w1)" "get_param (params t1) ''where'' = None"
    using deep_copy_where [OF assms(1)] by blast
  show ?thesis
    using c append_where_fresh [OF c(2) assms(2), of w1]
    by (simp add: query_def copy_handle_def bind_def)
qed

lemma query_stored:
  assumes "get_param (params t) ''where'' = Some (PStr s)" "strip e \<noteq> []" "strip s \<noteq> []"
  shows "\<exists>t' w'. query t e False ''cas'' w = (Inr t', w') \<and>
           get_param (params t') ''where'' =
             Some (PStr (if e = s then wrap_condition s
                         else wrap_condition s @ '' and '' @ wrap_condition e))"
proof -
  obtain t1 w1 where c: "deep_copy t w = (Inr t1, w1)" "get_param (params t1) ''where'' = Some (PStr s)"
    using deep_copy_where_text [OF assms(1)] by blast
  show ?thesis
    using c append_where_stored [OF c(2) assms(2,3), of w1]
    by (simp add: query_def copy_handle_def bind_def)
qed

text \<open>
  Claim C2. On a handle without a \<^verbatim>\<open>where\<close> parameter, the filter \<open>e1\<close> followed
  by the filter \<open>e2\<close> (two calls of \<^verbatim>\<open>query\<close>) leaves the pending
  \<^verbatim>\<open>where\<close> text \<^verbatim>\<open>((e1)) and (e2)\<close>: the conjunction of the two conditions, the
  stored one wrapped once more. This holds whenever \<open>e2\<close> is not the text
  \<^verbatim>\<open>(e1)\<close>, hence also for \<open>e2 = e1\<close>: the same filter applied in two successive
  calls is kept twice, because the duplicate test compares the new condition with the
  stored text after that was wrapped again.
\<close>

theorem query_twice_where:
  assumes "get_param (params t) ''where'' = None" "strip e1 \<noteq> []" "strip e2 \<noteq> []"
    and "e2 \<noteq> wrap_condition e1"
  shows "pending_where (bind (query t e1 False ''cas'') (\<lambda>t1. query t1 e2 False ''cas'')) w =
           Inr (Some (PStr (''(('' @ e1 @ ''))'' @ '' and '' @ ''('' @ e2 @ '')'')))"
proof -
  obtain t1 w1 where q1: "query t e1 False ''cas'' w = (Inr t1, w1)"
      "get_param (params t1) ''where'' = Some (PStr (wrap_condition e1))"
    using query_fresh [OF assms(1,2)] by blast
  have "strip (wrap_condition e1) \<noteq> []"
    by (simp add: strip_wrap) (simp add: wrap_condition_def)
  then obtain t2 w2 where q2: "query t1 e2 False ''cas'' w1 = (Inr t2, w2)"
      "get_param (params t2) ''where'' =
         Some (PStr (wrap_condition (wrap_condition e1) @ '' and '' @ wrap_condition e2))"
    using query_stored [OF q1(2) assms(3), of w1] assms(4) by auto
  show ?thesis
    using q1 q2 by (simp add: pending_where_def bind_def wrap_condition_def)
qed

theorem query_twice_where_witness:
  "pending_where (bind (query demo_table ''a > 1'' False ''cas'') (\<lambda>t1. query t1 ''b < 2'' False ''cas'')) demo_world
     = Inr (Some (PStr ''((a > 1)) and (b < 2)'')) \<and>
   pending_where (bind (query demo_table ''a > 1'' False ''cas'') (\<lambda>t1. query t1 ''a > 1'' False ''cas'')) demo_world
     = Inr (Some (PStr ''((a > 1)) and (a > 1)''))"
proof -
  have nowhere: "get_param (params demo_table) ''where'' = None"
    by (simp add: demo_table_def lower_def)
  have nonblank: "strip ''a > 1'' \<noteq> []" "strip ''b < 2'' \<noteq> []"
    by (simp_all add: strip_def rstrip_def is_space_def)
  have differ: "''b < 2'' \<noteq> wrap_condition ''a > 1''" "''a > 1'' \<noteq> wrap_condition ''a > 1''"
    by (simp_all add: wrap_condition_def)
  show ?thesis
    using query_twice_where [OF nowhere nonblank(1) nonblank(2) differ(1), of demo_world]
      query_twice_where [OF nowhere nonblank(1) nonblank(1) differ(2), of demo_world]
    by simp
qed

section \<open>Properties: row ranges of head and tail\<close>








lemma silentD: "silent m \<Longrightarrow> calls (snd (m w)) = calls w"
  by (simp add: silent_def)

lemma silent_ret [simp]: "silent (ret x)"
  by (simp add: silent_def ret_def)

lemma silent_throw [simp]: "silent (throw e)"
  by (simp add: silent_def throw_def)

lemma silent_bind: "silent m \<Longrightarrow> (\<And>x. silent (f x)) \<Longrightarrow> silent (bind m f)"
  by (auto simp: silent_def bind_def split: prod.splits sum.splits) (metis snd_conv)+

lemma calls_bind_silent:
  "(\<And>x. silent (f x)) \<Longrightarrow> calls (snd (bind m f w)) = calls (snd (m w))"
  by (auto simp: silent_def bind_def split: prod.splits sum.splits)

lemma bind_ret [simp]: "bind (ret x) f = f x"
  by (rule ext) (simp add: bind_def ret_def)

lemma silent_fetched_rows [simp]: "silent (fetched_rows out)"
  by (cases out) (simp_all add: fetched_rows_def)

lemma silent_alloc [simp]: "silent (alloc xs)"
  by (simp add: silent_def alloc_def)

lemma silent_shallow_copy [simp]: "silent (shallow_copy t)"
  by (simp add: silent_def shallow_copy_def)

lemma silent_store_list [simp]: "silent (store_list t key xs)"
  by (simp add: store_list_def silent_bind)

lemma lower_keys [simp]:
  "lower ''varlist'' = ''varlist''" "lower ''groupby'' = ''groupby''"
  "lower ''where'' = ''where''" "lower ''compvars'' = ''compvars''"
  "lower ''comppgm'' = ''comppgm''" "lower ''name'' = ''name''"
  by (simp_all add: lower_def lower_char_def)

lemma get_param_set_param_other:
  "lower k \<noteq> lower key \<Longrightarrow> get_param (set_param ps key v) k = get_param ps k"
  by (induction ps) auto









lemma retrieve_ui_result:
  "retrieve_ui g act kw w =
     (case connection g of
        None \<Rightarrow> (Inl no_connection, w)
      | Some r \<Rightarrow>
          (case conns w r of
             None \<Rightarrow> (Inl no_connection, w)
           | Some c \<Rightarrow>
               (case server c \<lparr>action = act, table_bundle = bundle_of (heap w) (params g),
                                kwargs = ui_kwargs @ kw\<rparr> of
                  Failure status \<Rightarrow> Inl (SWATError status)
                | out \<Rightarrow> Inr out,
                w\<lparr>calls := calls w @
                   [\<lparr>action = act, table_bundle = bundle_of (heap w) (params g),
                     kwargs = ui_kwargs @ kw\<rparr>]\<rparr>)))"
  by (auto simp: retrieve_ui_def retrieve_def get_connection_def bind_def ret_def throw_def
      ui_kwargs_def Let_def split: option.splits response.splits)












section \<open>Properties: copies and the heap\<close>

lemma deref_append: "a < length h \<Longrightarrow> deref (h @ ext) a = deref h a"
  by (simp add: deref_def nth_append)

lemma deref_fresh: "deref (h @ [xs]) (length h) = xs"
  by (simp add: deref_def)

lemma deepcopy_params_props:
  assumes "wf_params h0 ps" "h = h0 @ e0"
    and "\<forall>(a, b) \<in> set memo. a < length h0 \<and> length h0 \<le> b \<and> b < length h \<and> h ! b = deref h0 a"
  shows "\<exists>ext. snd (deepcopy_params ps memo h) = h @ ext \<and>
           bundle_of (h @ ext) (fst (deepcopy_params ps memo h)) = bundle_of h0 ps \<and>
           (\<forall>a \<in> set (refs (fst (deepcopy_params ps memo h))). length h0 \<le> a \<and> a < length (h @ ext))"
  using assms
proof (induction ps memo h arbitrary: e0 rule: deepcopy_params.induct)
  case (1 memo h)
  then show ?case by (simp add: bundle_of_def)
next
  case (2 k s ps memo h)
  from 2(2) have wf: "wf_params h0 ps" by (simp add: wf_params_def)
  from 2(1) [OF wf 2(3) 2(4)] obtain ext where
    "snd (deepcopy_params ps memo h) = h @ ext"
    "bundle_of (h @ ext) (fst (deepcopy_params ps memo h)) = bundle_of h0 ps"
    "\<forall>a \<in> set (refs (fst (deepcopy_params ps memo h))). length h0 \<le> a \<and> a < length (h @ ext)"
    by blast
  then show ?case
    by (intro exI [of _ ext]) (auto simp: bundle_of_def split: prod.splits)
next
  case (3 k a ps memo h)
  from 3(3) have wf: "wf_params h0 ps" and a: "a < length h0" by (simp_all add: wf_params_def)
  show ?case
  proof (cases "map_of memo a")
    case (Some b)
    then have "(a, b) \<in> set memo" by (rule map_of_SomeD)
    with 3(5) have b: "length h0 \<le> b" "b < length h" "h ! b = deref h0 a" by auto
    from 3(2) [OF Some wf 3(4) 3(5)] obtain ext where e:
      "snd (deepcopy_params ps memo h) = h @ ext"
      "bundle_of (h @ ext) (fst (deepcopy_params ps memo h)) = bundle_of h0 ps"
      "\<forall>a \<in> set (refs (fst (deepcopy_params ps memo h))). length h0 \<le> a \<and> a < length (h @ ext)"
      by blast
    have "deref (h @ ext) b = deref h0 a"
      using b by (simp add: deref_def nth_append)
    with e b Some show ?thesis
      by (intro exI [of _ ext]) (auto simp: bundle_of_def split: prod.splits)
  next
    case None
    let ?h1 = "h @ [deref h a]"
    let ?memo1 = "(a, length h) # memo"
    have h1: "?h1 = h0 @ (e0 @ [deref h a])" using 3(4) by simp
    have da: "deref h a = deref h0 a" using a 3(4) by (simp add: deref_append)
    have inv: "\<forall>(a', b) \<in> set ?memo1. a' < length h0 \<and> length h0 \<le> b \<and> b < length ?h1 \<and> ?h1 ! b = deref h0 a'"
      using 3(5) a da 3(4) by (auto simp: nth_append)
    from 3(1) [OF None wf h1 inv] obtain ext where e:
      "snd (deepcopy_params ps ?memo1 ?h1) = ?h1 @ ext"
      "bundle_of (?h1 @ ext) (fst (deepcopy_params ps ?memo1 ?h1)) = bundle_of h0 ps"
      "\<forall>a \<in> set (refs (fst (deepcopy_params ps ?memo1 ?h1))). length h0 \<le> a \<and> a < length (?h1 @ ext)"
      by blast
    have "deref (?h1 @ ext) (length h) = deref h0 a"
      using da by (simp add: deref_def nth_append)
    with e None 3(4) show ?thesis
      by (intro exI [of _ "[deref h a] @ ext"]) (auto simp: bundle_of_def split: prod.splits)
  qed
qed


lemma refs_Cons:
  "set (refs ((k, u) # ps)) = (case u of PStr s \<Rightarrow> {} | PList a \<Rightarrow> {a}) \<union> set (refs ps)"
  by (cases u) auto

lemma refs_set_param_list: "set (refs (set_param ps key (PList b))) \<subseteq> insert b (set (refs ps))"
  by (induction ps) (auto simp: refs_Cons split: pval.splits if_splits)

lemma refs_set_param_text: "set (refs (set_param ps key (PStr s))) \<subseteq> set (refs ps)"
  by (induction ps) (auto simp: refs_Cons split: pval.splits if_splits)

lemma get_param_refs: "get_param ps key = Some (PList a) \<Longrightarrow> a \<in> set (refs ps)"
  by (induction ps) (auto simp: refs_Cons split: if_splits pval.splits)

lemma wf_bundle_append: "wf_params h ps \<Longrightarrow> bundle_of (h @ ext) ps = bundle_of h ps"
proof (induction ps)
  case Nil
  then show ?case by (simp add: bundle_of_def)
next
  case (Cons p ps)
  obtain k v where p: "p = (k, v)" by (cases p)
  show ?case
  proof (cases v)
    case (PStr s)
    with Cons p show ?thesis by (simp add: bundle_of_def wf_params_def)
  next
    case (PList a)
    with Cons p show ?thesis by (simp add: bundle_of_def wf_params_def deref_append)
  qed
qed

lemma deep_copy_props:
  assumes "wf_params (heap w) (params t)"
  shows "\<exists>d ext. deep_copy t w = (Inr d, w\<lparr>heap := heap w @ ext\<rparr>) \<and>
           bundle_of (heap w @ ext) (params d) = bundle_of (heap w) (params t) \<and>
           fresh_refs (heap w) (heap w @ ext) (params d) \<and>
           connection d = reconnect t w \<and> is_column d = is_column t \<and>
           action_defaults d = action_defaults t"
proof -
  obtain ext where "snd (deepcopy_params (params t) [] (heap w)) = heap w @ ext"
    "bundle_of (heap w @ ext) (fst (deepcopy_params (params t) [] (heap w))) = bundle_of (heap w) (params t)"
    "\<forall>a \<in> set (refs (fst (deepcopy_params (params t) [] (heap w)))). length (heap w) \<le> a \<and> a < length (heap w @ ext)"
    using deepcopy_params_props [OF assms, of "heap w" "[]" "[]"] by auto
  then show ?thesis
    by (auto simp: deep_copy_def fresh_refs_def split: prod.splits)
qed

lemma store_list_exact:
  "store_list t key xs w =
     (Inr (t\<lparr>params := set_param (params t) key (PList (length (heap w)))\<rparr>),
      w\<lparr>heap := heap w @ [xs]\<rparr>)"
  by (simp add: store_list_def bind_def alloc_def ret_def)

lemma fresh_refs_store:
  "fresh_refs h0 h ps \<Longrightarrow> length h0 \<le> length h \<Longrightarrow>
   fresh_refs h0 (h @ [xs]) (set_param ps key (PList (length h)))"
  using refs_set_param_list [of ps key "length h"]
  by (fastforce simp: fresh_refs_def)

lemma fresh_refs_grow: "fresh_refs h0 h ps \<Longrightarrow> length h \<le> length h' \<Longrightarrow> fresh_refs h0 h' ps"
  by (fastforce simp: fresh_refs_def)

lemma fresh_refs_text: "fresh_refs h0 h ps \<Longrightarrow> fresh_refs h0 h (set_param ps key (PStr s))"
  using refs_set_param_text [of ps key s] by (fastforce simp: fresh_refs_def)

lemma append_names_list_exact:
  "append_names_list t key items w =
     (case get_param (params t) key of
        Some (PList a) \<Rightarrow>
          (Inr (get_unique (deref ((heap w)[a := deref (heap w) a @ new_items items]) a) True),
           w\<lparr>heap := (heap w)[a := deref (heap w) a @ new_items items]\<rparr>)
      | Some (PStr s) \<Rightarrow>
          (Inr (get_unique (s # new_items items) True),
           w\<lparr>heap := heap w @ [s # new_items items]\<rparr>)
      | None \<Rightarrow>
          (Inr (get_unique (new_items items) True),
           w\<lparr>heap := heap w @ [new_items items]\<rparr>))"
  by (simp add: append_names_list_def param_as_list_def bind_def alloc_def ret_def
      list_extend_def read_list_def deref_def split: option.splits pval.splits)


lemma lookup_value_bundle:
  "lookup_value (bundle_of h ps) key = map_option (value_of h) (get_param ps key)"
  by (induction ps) (auto simp: bundle_of_def)

lemma ui_kwargs_nil [simp]: "ui_kwargs @ [] = ui_kwargs"
  by simp

lemma reconnect_alt:
  "reconnect t w =
     (case connection t of None \<Rightarrow> None
      | Some r \<Rightarrow> (case conns w r of None \<Rightarrow> None | Some c \<Rightarrow> Some r))"
  by (simp add: reconnect_def get_connection_def split: option.splits)

lemma retrieve_ui_reconnect:
  "retrieve_ui g act kw w =
     (case reconnect g w of
        None \<Rightarrow> (Inl no_connection, w)
      | Some r \<Rightarrow>
          (case conns w r of
             None \<Rightarrow> (Inl no_connection, w)
           | Some c \<Rightarrow>
               (case server c \<lparr>action = act, table_bundle = bundle_of (heap w) (params g),
                                kwargs = ui_kwargs @ kw\<rparr> of
                  Failure status \<Rightarrow> Inl (SWATError status)
                | out \<Rightarrow> Inr out,
                w\<lparr>calls := calls w @
                   [\<lparr>action = act, table_bundle = bundle_of (heap w) (params g),
                     kwargs = ui_kwargs @ kw\<rparr>]\<rparr>)))"
  by (simp add: retrieve_ui_result reconnect_alt split: option.splits)

lemma retrieve_ui_cong:
  assumes "bundle_of (heap w') (params t') = bundle_of (heap w) (params t)"
    "conns w' = conns w" "reconnect t' w' = reconnect t w"
  shows "\<exists>cs. retrieve_ui t act kw w = (fst (retrieve_ui t act kw w), w\<lparr>calls := calls w @ cs\<rparr>) \<and>
              retrieve_ui t' act kw w' = (fst (retrieve_ui t act kw w), w'\<lparr>calls := calls w' @ cs\<rparr>)"
proof (cases "reconnect t w")
  case None
  with assms show ?thesis
    by (intro exI [of _ "[]"]) (simp add: retrieve_ui_reconnect)
next
  case (Some r)
  show ?thesis
  proof (cases "conns w r")
    case None
    with Some assms show ?thesis
      by (intro exI [of _ "[]"]) (simp add: retrieve_ui_reconnect)
  next
    case (Some c)
    with \<open>reconnect t w = Some r\<close> assms show ?thesis
      by (intro exI [of _ "[\<lparr>action = act, table_bundle = bundle_of (heap w) (params t),
                             kwargs = ui_kwargs @ kw\<rparr>]"])
        (simp add: retrieve_ui_reconnect)
  qed
qed

lemma columninfo_cong:
  assumes "bundle_of (heap w') (params t') = bundle_of (heap w) (params t)"
    "conns w' = conns w" "reconnect t' w' = reconnect t w"
  shows "\<exists>cs. columninfo t w = (fst (columninfo t w), w\<lparr>calls := calls w @ cs\<rparr>) \<and>
              columninfo t' w' = (fst (columninfo t w), w'\<lparr>calls := calls w' @ cs\<rparr>)"
proof -
  obtain cs where
    "retrieve_ui t ''table.columninfo'' [] w = (fst (retrieve_ui t ''table.columninfo'' [] w), w\<lparr>calls := calls w @ cs\<rparr>)"
    "retrieve_ui t' ''table.columninfo'' [] w' = (fst (retrieve_ui t ''table.columninfo'' [] w), w'\<lparr>calls := calls w' @ cs\<rparr>)"
    using retrieve_ui_cong [OF assms] by blast
  then show ?thesis
    by (intro exI [of _ cs])
      (cases "fst (retrieve_ui t ''table.columninfo'' [] w)",
       auto simp: columninfo_def bind_def ret_def throw_def split: response.splits)
qed

lemma columns_cong:
  assumes "bundle_of (heap w') (params t') = bundle_of (heap w) (params t)"
    "conns w' = conns w" "reconnect t' w' = reconnect t w"
  shows "\<exists>cs. columns t w = (fst (columns t w), w\<lparr>calls := calls w @ cs\<rparr>) \<and>
              columns t' w' = (fst (columns t w), w'\<lparr>calls := calls w' @ cs\<rparr>)"
proof -
  have v: "map_option (value_of (heap w')) (get_param (params t') ''varlist'')
         = map_option (value_of (heap w)) (get_param (params t) ''varlist'')"
    using assms(1) lookup_value_bundle by metis
  obtain cs where ci:
    "columninfo t w = (fst (columninfo t w), w\<lparr>calls := calls w @ cs\<rparr>)"
    "columninfo t' w' = (fst (columninfo t w), w'\<lparr>calls := calls w' @ cs\<rparr>)"
    using columninfo_cong [OF assms] by blast
  have info: "\<exists>ds. bind (columninfo t) (\<lambda>ci. ret (map fst ci)) w
                 = (fst (bind (columninfo t) (\<lambda>ci. ret (map fst ci)) w), w\<lparr>calls := calls w @ ds\<rparr>) \<and>
               bind (columninfo t') (\<lambda>ci. ret (map fst ci)) w'
                 = (fst (bind (columninfo t) (\<lambda>ci. ret (map fst ci)) w), w'\<lparr>calls := calls w' @ ds\<rparr>)"
    using ci
    by (intro exI [of _ cs]) (cases "fst (columninfo t w)", auto simp: bind_def ret_def)
  have same: "\<exists>ds. (x, w) = (x, w\<lparr>calls := calls w @ ds\<rparr>) \<and> (x, w') = (x, w'\<lparr>calls := calls w' @ ds\<rparr>)"
    for x :: "error + string list"
    by (intro exI [of _ "[]"]) simp
  show ?thesis
  proof (cases "get_param (params t) ''varlist''")
    case None
    with v have "get_param (params t') ''varlist'' = None" by simp
    with None info show ?thesis by (simp add: columns_def)
  next
    case (Some u)
    then obtain u' where u': "get_param (params t') ''varlist'' = Some u'"
      "value_of (heap w') u' = value_of (heap w) u"
      using v by (cases "get_param (params t') ''varlist''") auto
    show ?thesis
    proof (cases u)
      case (PStr x)
      with u' have "u' = PStr x" by (cases u') auto
      with Some PStr u' info same show ?thesis by (simp add: columns_def)
    next
      case (PList a)
      with u' obtain a' where "u' = PList a'" "deref (heap w') a' = deref (heap w) a"
        by (cases u') auto
      with Some PList u' info same show ?thesis by (simp add: columns_def)
    qed
  qed
qed


lemma lower_idem [simp]: "lower (lower x) = lower x"
proof -
  have "lower_char (lower_char c) = lower_char c" for c
    by (auto simp: lower_char_def split: option.splits)
  then show ?thesis by (simp add: lower_def)
qed

lemma get_unique_seen_covers:
  "x \<in> set xs \<Longrightarrow>
   x \<in> set seen \<or> x \<in> set (get_unique_seen lc seen xs) \<or>
   (lc \<and> (lower x \<in> set seen \<or> lower x \<in> set (get_unique_seen lc seen xs)))"
proof (induction xs arbitrary: seen)
  case Nil
  then show ?case by simp
next
  case (Cons y ys)
  show ?case
  proof (cases "x = y")
    case True
    then show ?thesis by auto
  next
    case False
    with Cons.prems have "x \<in> set ys" by simp
    from Cons.IH [OF this, of seen] Cons.IH [OF this, of "y # seen"]
    show ?thesis by auto
  qed
qed

lemma get_unique_covers:
  "x \<in> set xs \<Longrightarrow> x \<in> set (get_unique xs True) \<or> lower x \<in> set (get_unique xs True)"
  using get_unique_seen_covers [of x xs "[]" True] by (simp add: get_unique_def)

lemma get_unique_seen_set:
  "set (get_unique_seen False seen xs) = set xs - set seen"
  by (induction xs arbitrary: seen) auto

lemma get_unique_set: "set (get_unique xs False) = set xs"
  by (simp add: get_unique_def get_unique_seen_set)

lemma contains_empty: "contains [] s"
  by (cases s) auto

lemma contains_prefix: "contains pat (pat @ post)"
  by (cases pat) (auto simp: contains_empty)

lemma contains_append: "contains pat (pre @ pat @ post)"
  by (induction pre) (auto simp: contains_prefix)

lemma contains_concat: "b \<in> set ys \<Longrightarrow> contains b (concat ys)"
proof -
  assume "b \<in> set ys"
  then obtain us vs where "ys = us @ b # vs" by (meson split_list)
  then have "concat ys = concat us @ b @ concat vs" by simp
  then show ?thesis by (simp add: contains_append)
qed


lemma update_fresh:
  "length h0 \<le> a \<Longrightarrow> (h0 @ ext)[a := xs] = h0 @ ext[a - length h0 := xs]"
  by (simp add: list_update_append)

lemma deref_update_other: "b \<noteq> a \<Longrightarrow> deref (h[a := xs]) b = deref h b"
  by (simp add: deref_def)

lemma deref_update_same: "a < length h \<Longrightarrow> deref (h[a := xs]) a = xs"
  by (simp add: deref_def)

lemma deref_append_old: "b < length h \<Longrightarrow> deref (h @ ext) b = deref h b"
  by (simp add: deref_def nth_append)

lemma append_names_props:
  assumes "heap w = h0 @ ext" "fresh_refs h0 (heap w) (params t)"
  shows "\<exists>t' ext' a. bind (append_names_list t key items) (store_list t key) w = (Inr t', w\<lparr>heap := h0 @ ext'\<rparr>) \<and>
      fresh_refs h0 (h0 @ ext') (params t') \<and>
      length (heap w) \<le> length (h0 @ ext') \<and>
      (\<forall>k. lower k \<noteq> lower key \<longrightarrow> get_param (params t') k = get_param (params t) k) \<and>
      get_param (params t') key = Some (PList a) \<and>
      length (heap w) \<le> a \<and>
      (\<forall>x \<in> set (new_items items).
          x \<in> set (deref (h0 @ ext') a) \<or> lower x \<in> set (deref (h0 @ ext') a)) \<and>
      (\<forall>b < length (heap w). get_param (params t) key \<noteq> Some (PList b) \<longrightarrow>
          deref (h0 @ ext') b = deref (heap w) b) \<and>
      is_column t' = is_column t \<and> connection t' = connection t"
proof -
  let ?new = "new_items items"
  have cover: "\<forall>x \<in> set ?new. x \<in> set (get_unique (old @ ?new) True) \<or> lower x \<in> set (get_unique (old @ ?new) True)"
    for old
    using get_unique_covers [of _ "old @ ?new"] by auto
  show ?thesis
  proof (cases "get_param (params t) key")
    case None
    let ?h1 = "heap w @ [?new]"
    let ?u = "get_unique ?new True"
    let ?t' = "t\<lparr>params := set_param (params t) key (PList (length ?h1))\<rparr>"
    have r: "bind (append_names_list t key items) (store_list t key) w = (Inr ?t', w\<lparr>heap := h0 @ (ext @ [?new, ?u])\<rparr>)"
      using None assms(1)
      by (simp add: bind_def append_names_list_exact store_list_exact)
    have f: "fresh_refs h0 (h0 @ (ext @ [?new, ?u])) (params ?t')"
      using fresh_refs_store [OF fresh_refs_grow [OF assms(2), of ?h1], of ?u key] assms(1)
      by simp
    have d: "deref (h0 @ (ext @ [?new, ?u])) (length ?h1) = ?u"
      using assms(1) deref_fresh [of "heap w @ [?new]" ?u] by simp
    have e: "h0 @ (ext @ [?new, ?u]) = heap w @ [?new, ?u]"
      using assms(1) by simp
    have old: "\<forall>b < length (heap w). deref (h0 @ (ext @ [?new, ?u])) b = deref (heap w) b"
      unfolding e by (simp add: deref_append_old)
    show ?thesis
      using r f d old cover [of "[]"] assms(1)
      by (intro exI [of _ ?t'] exI [of _ "ext @ [?new, ?u]"] exI [of _ "length ?h1"])
        (simp add: get_param_set_param_other)
  next
    case (Some v)
    show ?thesis
    proof (cases v)
      case (PStr s)
      let ?h1 = "heap w @ [s # ?new]"
      let ?u = "get_unique (s # ?new) True"
      let ?t' = "t\<lparr>params := set_param (params t) key (PList (length ?h1))\<rparr>"
      have r: "bind (append_names_list t key items) (store_list t key) w = (Inr ?t', w\<lparr>heap := h0 @ (ext @ [s # ?new, ?u])\<rparr>)"
        using Some PStr assms(1)
        by (simp add: bind_def append_names_list_exact store_list_exact)
      have f: "fresh_refs h0 (h0 @ (ext @ [s # ?new, ?u])) (params ?t')"
        using fresh_refs_store [OF fresh_refs_grow [OF assms(2), of ?h1], of ?u key] assms(1)
        by simp
      have d: "deref (h0 @ (ext @ [s # ?new, ?u])) (length ?h1) = ?u"
        using assms(1) deref_fresh [of "heap w @ [s # ?new]" ?u] by simp
      have e: "h0 @ (ext @ [s # ?new, ?u]) = heap w @ [s # ?new, ?u]"
        using assms(1) by simp
      have old: "\<forall>b < length (heap w). deref (h0 @ (ext @ [s # ?new, ?u])) b = deref (heap w) b"
        unfolding e by (simp add: deref_append_old)
      show ?thesis
        using r f d old cover [of "[s]"] assms(1)
        by (intro exI [of _ ?t'] exI [of _ "ext @ [s # ?new, ?u]"] exI [of _ "length ?h1"])
          (simp add: get_param_set_param_other)
    next
      case (PList a)
      have a: "length h0 \<le> a" "a < length (heap w)"
        using get_param_refs [of "params t" key a] Some PList assms(2)
        by (auto simp: fresh_refs_def)
      let ?xs = "deref (heap w) a @ ?new"
      let ?h1 = "(heap w)[a := ?xs]"
      let ?u = "get_unique ?xs True"
      let ?t' = "t\<lparr>params := set_param (params t) key (PList (length ?h1))\<rparr>"
      let ?ext' = "ext[a - length h0 := ?xs] @ [?u]"
      have h1: "?h1 = h0 @ ext[a - length h0 := ?xs]"
        using a assms(1) by (simp add: update_fresh)
      have r0: "bind (append_names_list t key items) (store_list t key) w = (Inr ?t', w\<lparr>heap := ?h1 @ [?u]\<rparr>)"
        using Some PList a
        by (simp add: bind_def append_names_list_exact store_list_exact
            deref_update_same)
      have r: "bind (append_names_list t key items) (store_list t key) w = (Inr ?t', w\<lparr>heap := h0 @ ?ext'\<rparr>)"
        using r0 h1 by simp
      have f: "fresh_refs h0 (h0 @ ?ext') (params ?t')"
        using fresh_refs_store [OF fresh_refs_grow [OF assms(2), of ?h1], of ?u key] h1 assms(1)
        by simp
      have d: "deref (h0 @ ?ext') (length ?h1) = ?u"
        using h1 by (metis append.assoc deref_fresh)
      have old: "\<forall>b < length (heap w). b \<noteq> a \<longrightarrow> deref (h0 @ ?ext') b = deref (heap w) b"
      proof (intro allI impI)
        fix b assume "b < length (heap w)" "b \<noteq> a"
        then have "deref (?h1 @ [?u]) b = deref (heap w) b"
          by (simp add: deref_def nth_append)
        then show "deref (h0 @ ?ext') b = deref (heap w) b"
          using h1 by simp
      qed
      have len: "length (heap w) \<le> length (h0 @ ?ext')"
        using assms(1) by simp
      have hl: "length ?h1 = length (heap w)" by simp
      show ?thesis
        using r f d old cover [of "deref (heap w) a"] len Some PList hl
        by (intro exI [of _ ?t'] exI [of _ ?ext'] exI [of _ "length ?h1"])
          (simp add: get_param_set_param_other)
    qed
  qed
qed

lemma append_compvars_props:
  assumes "heap w = h0 @ ext" "fresh_refs h0 (heap w) (params t)"
  shows "\<exists>t' ext' a. append_compvars t items w = (Inr t', w\<lparr>heap := h0 @ ext'\<rparr>) \<and>
      fresh_refs h0 (h0 @ ext') (params t') \<and>
      length (heap w) \<le> length (h0 @ ext') \<and>
      (\<forall>k. lower k \<noteq> ''compvars'' \<longrightarrow> get_param (params t') k = get_param (params t) k) \<and>
      get_param (params t') ''compvars'' = Some (PList a) \<and>
      length (heap w) \<le> a \<and>
      (\<forall>x \<in> set (new_items items).
          x \<in> set (deref (h0 @ ext') a) \<or> lower x \<in> set (deref (h0 @ ext') a)) \<and>
      (\<forall>b < length (heap w). get_param (params t) ''compvars'' \<noteq> Some (PList b) \<longrightarrow>
          deref (h0 @ ext') b = deref (heap w) b) \<and>
      is_column t' = is_column t \<and> connection t' = connection t"
  using append_names_props [OF assms, of "''compvars''" items]
  by (simp add: append_compvars_def)


lemma append_comppgm_text_exact:
  "append_comppgm_text t items w =
     (case get_param (params t) ''comppgm'' of
        Some (PList a) \<Rightarrow>
          (Inr (concat (get_unique (map terminate_block
                  (deref ((heap w)[a := deref (heap w) a @ new_items items]) a)) False)),
           w\<lparr>heap := (heap w)[a := map terminate_block
                  (deref ((heap w)[a := deref (heap w) a @ new_items items]) a)]\<rparr>)
      | Some (PStr s) \<Rightarrow>
          (Inr (concat (get_unique (map terminate_block (s # new_items items)) False)),
           w\<lparr>heap := heap w @ [map terminate_block (s # new_items items)]\<rparr>)
      | None \<Rightarrow>
          (Inr (concat (get_unique (map terminate_block (new_items items)) False)),
           w\<lparr>heap := heap w @ [map terminate_block (new_items items)]\<rparr>))"
  by (simp add: append_comppgm_text_def param_as_list_def bind_def alloc_def ret_def
      list_extend_def list_assign_def read_list_def deref_def split: option.splits pval.splits)

lemma append_comppgm_props:
  assumes "heap w = h0 @ ext" "fresh_refs h0 (heap w) (params t)"
  shows "\<exists>t' ext' pgm. append_comppgm t items w = (Inr t', w\<lparr>heap := h0 @ ext'\<rparr>) \<and>
      fresh_refs h0 (h0 @ ext') (params t') \<and>
      length (heap w) \<le> length (h0 @ ext') \<and>
      (\<forall>k. lower k \<noteq> ''comppgm'' \<longrightarrow> get_param (params t') k = get_param (params t) k) \<and>
      get_param (params t') ''comppgm'' = Some (PStr pgm) \<and>
      (\<forall>x \<in> set (new_items items). contains (terminate_block x) pgm) \<and>
      (\<forall>b < length (heap w). get_param (params t) ''comppgm'' \<noteq> Some (PList b) \<longrightarrow>
          deref (h0 @ ext') b = deref (heap w) b) \<and>
      is_column t' = is_column t \<and> connection t' = connection t"
proof -
  let ?new = "new_items items"
  have cover: "\<forall>x \<in> set ?new.
      contains (terminate_block x) (concat (get_unique (map terminate_block (old @ ?new)) False))"
    for old
    by (auto intro!: contains_concat simp: get_unique_set)
  show ?thesis
  proof (cases "get_param (params t) ''comppgm''")
    case None
    let ?pgm = "concat (get_unique (map terminate_block ?new) False)"
    let ?t' = "t\<lparr>params := set_param (params t) ''comppgm'' (PStr ?pgm)\<rparr>"
    let ?ext' = "ext @ [map terminate_block ?new]"
    have r: "append_comppgm t items w = (Inr ?t', w\<lparr>heap := h0 @ ?ext'\<rparr>)"
      using None assms(1)
      by (simp add: append_comppgm_def bind_def append_comppgm_text_exact ret_def)
    have f: "fresh_refs h0 (h0 @ ?ext') (params ?t')"
      using fresh_refs_text [OF fresh_refs_grow [OF assms(2), of "h0 @ ?ext'"]] assms(1) by simp
    have e: "h0 @ ?ext' = heap w @ [map terminate_block ?new]"
      using assms(1) by simp
    have old: "\<forall>b < length (heap w). deref (h0 @ ?ext') b = deref (heap w) b"
      unfolding e by (simp add: deref_append_old)
    show ?thesis
      using r f old cover [of "[]"] assms(1)
      by (intro exI [of _ ?t'] exI [of _ ?ext'] exI [of _ ?pgm])
        (simp add: get_param_set_param_other)
  next
    case (Some v)
    show ?thesis
    proof (cases v)
      case (PStr s)
      let ?pgm = "concat (get_unique (map terminate_block (s # ?new)) False)"
      let ?t' = "t\<lparr>params := set_param (params t) ''comppgm'' (PStr ?pgm)\<rparr>"
      let ?ext' = "ext @ [map terminate_block (s # ?new)]"
      have r: "append_comppgm t items w = (Inr ?t', w\<lparr>heap := h0 @ ?ext'\<rparr>)"
        using Some PStr assms(1)
        by (simp add: append_comppgm_def bind_def append_comppgm_text_exact ret_def)
      have f: "fresh_refs h0 (h0 @ ?ext') (params ?t')"
        using fresh_refs_text [OF fresh_refs_grow [OF assms(2), of "h0 @ ?ext'"]] assms(1) by simp
      have e: "h0 @ ?ext' = heap w @ [map terminate_block (s # ?new)]"
        using assms(1) by simp
      have old: "\<forall>b < length (heap w). deref (h0 @ ?ext') b = deref (heap w) b"
        unfolding e by (simp add: deref_append_old)
      show ?thesis
        using r f old cover [of "[s]"] assms(1)
        by (intro exI [of _ ?t'] exI [of _ ?ext'] exI [of _ ?pgm])
          (simp add: get_param_set_param_other)
    next
      case (PList a)
      have a: "length h0 \<le> a" "a < length (heap w)"
        using get_param_refs [of "params t" "''comppgm''" a] Some PList assms(2)
        by (auto simp: fresh_refs_def)
      let ?code = "map terminate_block (deref (heap w) a @ ?new)"
      let ?pgm = "concat (get_unique ?code False)"
      let ?h1 = "(heap w)[a := ?code]"
      let ?t' = "t\<lparr>params := set_param (params t) ''comppgm'' (PStr ?pgm)\<rparr>"
      let ?ext' = "ext[a - length h0 := ?code]"
      have h1: "?h1 = h0 @ ?ext'"
        using a assms(1) by (simp add: update_fresh)
      have r0: "append_comppgm t items w = (Inr ?t', w\<lparr>heap := ?h1\<rparr>)"
        using Some PList a
        by (simp add: append_comppgm_def bind_def append_comppgm_text_exact ret_def
            deref_update_same)
      have r: "append_comppgm t items w = (Inr ?t', w\<lparr>heap := h0 @ ?ext'\<rparr>)"
        using r0 h1 by simp
      have f: "fresh_refs h0 (h0 @ ?ext') (params ?t')"
        using fresh_refs_text [OF fresh_refs_grow [OF assms(2), of "h0 @ ?ext'"]] assms(1) by simp
      have old: "\<forall>b < length (heap w). b \<noteq> a \<longrightarrow> deref (h0 @ ?ext') b = deref (heap w) b"
      proof (intro allI impI)
        fix b assume "b < length (heap w)" "b \<noteq> a"
        then have "deref ?h1 b = deref (heap w) b"
          by (simp add: deref_def)
        then show "deref (h0 @ ?ext') b = deref (heap w) b"
          using h1 by simp
      qed
      have len: "length (heap w) \<le> length (h0 @ ?ext')"
        using assms(1) by simp
      show ?thesis
        using r f old cover [of "deref (heap w) a"] len Some PList
        by (intro exI [of _ ?t'] exI [of _ ?ext'] exI [of _ ?pgm])
          (simp add: get_param_set_param_other)
    qed
  qed
qed


lemma reconnect_copy:
  "connection d = reconnect t w \<Longrightarrow> conns w0 = conns w \<Longrightarrow> reconnect d w0 = reconnect t w"
  by (auto simp: reconnect_alt split: option.splits)

lemma ends_statement_missing [simp]: "ends_statement (missing_statement k)"
  by (simp add: ends_statement_def missing_statement_def rstrip_def is_space_def)

lemma terminate_missing [simp]: "terminate_block (missing_statement k) = missing_statement k"
  by (simp add: terminate_block_def)

lemma missing_statement_nonempty [simp]: "missing_statement k \<noteq> []"
  by (simp add: missing_statement_def)

lemma new_items_names: "new_items [Items (map Item ks)] = filter (\<lambda>x. x \<noteq> []) ks"
  by (induction ks) (auto simp: new_items_def)

lemma new_items_statements:
  "new_items [Items (map (\<lambda>k. Item (missing_statement k)) ks)] = map missing_statement ks"
  by (induction ks) (auto simp: new_items_def)

lemma getitem_list_result:
  assumes wf: "wf_params (heap w) (params t)"
    and cols: "columns t w = (Inr cols, w1)"
    and names: "resolve_keys cols keys = Inr names"
  shows "\<exists>out w'. getitem_list t keys w = (Inr out, w') \<and>
           (\<exists>ext. heap w' = heap w @ ext) \<and> calls w' = calls w1 \<and> conns w' = conns w \<and>
           is_column out = is_column t \<and>
           (\<exists>b. get_param (params out) ''varlist'' = Some (PList b) \<and> deref (heap w') b = names) \<and>
           (unknown_names cols names \<noteq> [] \<longrightarrow>
              (\<exists>a. get_param (params out) ''compvars'' = Some (PList a) \<and>
                 (\<forall>k \<in> set (unknown_names cols names). k \<noteq> [] \<longrightarrow>
                    k \<in> set (deref (heap w') a) \<or> lower k \<in> set (deref (heap w') a))) \<and>
              (\<exists>pgm. get_param (params out) ''comppgm'' = Some (PStr pgm) \<and>
                 (\<forall>k \<in> set (unknown_names cols names). contains (missing_statement k) pgm)))"
proof -
  let ?h0 = "heap w"
  let ?unknown = "unknown_names cols names"
  obtain d ext1 where d: "deep_copy t w = (Inr d, w\<lparr>heap := ?h0 @ ext1\<rparr>)"
      "bundle_of (?h0 @ ext1) (params d) = bundle_of ?h0 (params t)"
      "fresh_refs ?h0 (?h0 @ ext1) (params d)"
      "connection d = reconnect t w" "is_column d = is_column t"
    using deep_copy_props [OF wf] by blast
  let ?w0 = "w\<lparr>heap := ?h0 @ ext1\<rparr>"
  have rc: "reconnect d ?w0 = reconnect t w"
    using reconnect_copy [OF d(4), of ?w0] by simp
  obtain cs where cs: "columns t w = (fst (columns t w), w\<lparr>calls := calls w @ cs\<rparr>)"
      "columns d ?w0 = (fst (columns t w), ?w0\<lparr>calls := calls ?w0 @ cs\<rparr>)"
    using columns_cong [of ?w0 d w t] d(2) rc by auto
  let ?w2 = "?w0\<lparr>calls := calls w @ cs\<rparr>"
  have w1: "w1 = w\<lparr>calls := calls w @ cs\<rparr>"
    using cs(1) cols by simp
  have c2: "columns d ?w0 = (Inr cols, ?w2)"
    using cs(2) cols by simp
  let ?b = "length (?h0 @ ext1)"
  let ?d' = "d\<lparr>params := set_param (params d) ''varlist'' (PList ?b)\<rparr>"
  let ?w3 = "?w2\<lparr>heap := ?h0 @ (ext1 @ [names])\<rparr>"
  have st: "store_list d ''varlist'' names ?w2 = (Inr ?d', ?w3)"
    by (simp add: store_list_exact)
  have f3: "fresh_refs ?h0 (heap ?w3) (params ?d')"
    using fresh_refs_store [OF d(3), of names "''varlist''"] by simp
  have b3: "deref (heap ?w3) ?b = names"
    using deref_fresh [of "?h0 @ ext1" names] by simp
  have start: "getitem_list t keys w =
      (if ?unknown \<noteq> []
       then append_computed_columns ?d' (Items (map Item ?unknown))
              (Items (map (\<lambda>k. Item (missing_statement k)) ?unknown)) ?w3
       else (Inr ?d', ?w3))"
    using d(1) c2 names st by (simp add: getitem_list_def bind_def ret_def)
  show ?thesis
  proof (cases "?unknown = []")
    case True
    with start have "getitem_list t keys w = (Inr ?d', ?w3)" by simp
    moreover have "heap ?w3 = ?h0 @ (ext1 @ [names])" by simp
    ultimately show ?thesis
      using b3 w1 d(5) True
      by (intro exI [of _ ?d'] exI [of _ ?w3]) simp
  next
    case False
    have h3: "heap ?w3 = ?h0 @ (ext1 @ [names])" by simp
    obtain t1 ext4 a where cv:
      "append_compvars ?d' [Items (map Item ?unknown)] ?w3 = (Inr t1, ?w3\<lparr>heap := ?h0 @ ext4\<rparr>)"
      "fresh_refs ?h0 (?h0 @ ext4) (params t1)"
      "length (heap ?w3) \<le> length (?h0 @ ext4)"
      "\<forall>k. lower k \<noteq> ''compvars'' \<longrightarrow> get_param (params t1) k = get_param (params ?d') k"
      "get_param (params t1) ''compvars'' = Some (PList a)"
      "length (heap ?w3) \<le> a"
      "\<forall>x \<in> set (new_items [Items (map Item ?unknown)]).
          x \<in> set (deref (?h0 @ ext4) a) \<or> lower x \<in> set (deref (?h0 @ ext4) a)"
      "\<forall>b < length (heap ?w3). get_param (params ?d') ''compvars'' \<noteq> Some (PList b) \<longrightarrow>
          deref (?h0 @ ext4) b = deref (heap ?w3) b"
      "is_column t1 = is_column ?d'"
      using append_compvars_props [OF h3 f3, of "[Items (map Item ?unknown)]"] by blast
    let ?w4 = "?w3\<lparr>heap := ?h0 @ ext4\<rparr>"
    have h4: "heap ?w4 = ?h0 @ ext4" by simp
    have f4: "fresh_refs ?h0 (heap ?w4) (params t1)" using cv(2) by simp
    obtain t2 ext5 pgm where cp:
      "append_comppgm t1 [Items (map (\<lambda>k. Item (missing_statement k)) ?unknown)] ?w4
         = (Inr t2, ?w4\<lparr>heap := ?h0 @ ext5\<rparr>)"
      "length (heap ?w4) \<le> length (?h0 @ ext5)"
      "\<forall>k. lower k \<noteq> ''comppgm'' \<longrightarrow> get_param (params t2) k = get_param (params t1) k"
      "get_param (params t2) ''comppgm'' = Some (PStr pgm)"
      "\<forall>x \<in> set (new_items [Items (map (\<lambda>k. Item (missing_statement k)) ?unknown)]).
          contains (terminate_block x) pgm"
      "\<forall>b < length (heap ?w4). get_param (params t1) ''comppgm'' \<noteq> Some (PList b) \<longrightarrow>
          deref (?h0 @ ext5) b = deref (heap ?w4) b"
      "is_column t2 = is_column t1"
      using append_comppgm_props [OF h4 f4, of "[Items (map (\<lambda>k. Item (missing_statement k)) ?unknown)]"]
      by blast
    let ?w5 = "?w4\<lparr>heap := ?h0 @ ext5\<rparr>"
    have res: "getitem_list t keys w = (Inr t2, ?w5)"
      using start False cv(1) cp(1) by (simp add: append_computed_columns_def bind_def)
    \<comment> \<open>the visible column list\<close>
    have v1: "get_param (params t2) ''varlist'' = Some (PList ?b)"
      using cp(3) cv(4) by simp
    have nb: "get_param (params ?d') ''compvars'' \<noteq> Some (PList ?b)"
    proof
      assume "get_param (params ?d') ''compvars'' = Some (PList ?b)"
      then have "get_param (params d) ''compvars'' = Some (PList ?b)"
        by (simp add: get_param_set_param_other)
      from get_param_refs [OF this] d(3) show False
        by (auto simp: fresh_refs_def)
    qed
    have nb1: "get_param (params t1) ''comppgm'' \<noteq> Some (PList ?b)"
    proof
      assume "get_param (params t1) ''comppgm'' = Some (PList ?b)"
      then have "get_param (params d) ''comppgm'' = Some (PList ?b)"
        using cv(4) by (simp add: get_param_set_param_other)
      from get_param_refs [OF this] d(3) show False
        by (auto simp: fresh_refs_def)
    qed
    have b4: "deref (?h0 @ ext4) ?b = names"
      using cv(8) nb b3 by simp
    have "?b < length (heap ?w4)" using cv(3) by simp
    then have b5: "deref (?h0 @ ext5) ?b = names"
      using cp(6) nb1 b4 by simp
    \<comment> \<open>the computed variables\<close>
    have a4: "get_param (params t2) ''compvars'' = Some (PList a)"
      using cp(3) cv(5) by simp
    have "a \<in> set (refs (params t1))"
      using get_param_refs [OF cv(5)] .
    then have alt: "a < length (heap ?w4)"
      using cv(2) by (auto simp: fresh_refs_def)
    have na: "get_param (params t1) ''comppgm'' \<noteq> Some (PList a)"
    proof
      assume c: "get_param (params t1) ''comppgm'' = Some (PList a)"
      then have "get_param (params d) ''comppgm'' = Some (PList a)"
        using cv(4) by (simp add: get_param_set_param_other)
      from get_param_refs [OF this] d(3) have "a < ?b"
        by (auto simp: fresh_refs_def)
      with cv(6) show False by simp
    qed
    have a5: "deref (?h0 @ ext5) a = deref (?h0 @ ext4) a"
      using cp(6) na alt by simp
    have known: "\<forall>k \<in> set ?unknown. k \<noteq> [] \<longrightarrow>
        k \<in> set (deref (?h0 @ ext5) a) \<or> lower k \<in> set (deref (?h0 @ ext5) a)"
      using cv(7) a5 by (simp add: new_items_names)
    have stmts: "\<forall>k \<in> set ?unknown. contains (missing_statement k) pgm"
      using cp(5) by (simp add: new_items_statements)
    have col: "is_column t2 = is_column t"
      using cp(7) cv(9) d(5) by simp
    have hp: "heap ?w5 = ?h0 @ ext5" by simp
    show ?thesis
      using res v1 b5 a4 known stmts cp(4) col w1 hp
      by (intro exI [of _ t2] exI [of _ ?w5]) auto
  qed
qed

section \<open>Properties: selection of columns\<close>

lemma deep_copy_total: "\<exists>d h. deep_copy t w = (Inr d, w\<lparr>heap := h\<rparr>) \<and> is_column d = is_column t"
  by (auto simp: deep_copy_def split: prod.splits)

lemma to_column_named:
  "\<exists>c w2. to_column t (Some s) w = (Inr c, w2) \<and> is_column c \<and>
          column_name c w2 = (Inr s, w2) \<and> calls w2 = calls w \<and> conns w2 = conns w"
proof -
  obtain d h where d: "deep_copy t w = (Inr d, w\<lparr>heap := h\<rparr>)"
    using deep_copy_total by blast
  show ?thesis
    using d deref_fresh [of h "[s]"]
    by (simp add: to_column_def bind_def store_list_exact column_name_def)
qed



lemma columns_of_list:
  "get_param (params t) ''varlist'' = Some (PList b) \<Longrightarrow> deref (heap w) b \<noteq> [] \<Longrightarrow>
   columns t w = (Inr (deref (heap w) b), w)"
  by (simp add: columns_def)

lemma listed_wf: "wf_params (heap listed_world) (params listed_table)"
  by (simp add: wf_params_def listed_world_def listed_table_def)


lemma demo_columns:
  "columns demo_table demo_world =
     (Inr [''a'', ''b'', ''s''],
      demo_world\<lparr>calls := [\<lparr>action = ''table.columninfo'',
                              table_bundle = [(''name'', VStr ''cars'')], kwargs = ui_kwargs\<rparr>]\<rparr>)"
  by (simp add: columns_def columninfo_def bind_def ret_def retrieve_ui_result demo_table_def
      demo_world_def demo_conn_def demo_server_def demo_catalog_def bundle_of_def lower_def)



text \<open>
  Claim C10. On a table handle whose visible columns \<open>cols\<close> can be read, a text key
  that matches none of them without regard to case raises \<^verbatim>\<open>KeyError\<close> with the
  key; a key that matches returns a column handle whose name is the key as requested. The
  list selection of the same unknown name does not raise.
\<close>

theorem column_selection:
  assumes "\<not> is_column t" "columns t w = (Inr cols, w1)"
  shows "(lower s \<notin> set (map lower cols) \<longrightarrow>
            getitem t (KeyStr s) w = (Inl (KeyError s), w1)) \<and>
         (lower s \<in> set (map lower cols) \<longrightarrow>
            (\<exists>c w2. getitem t (KeyStr s) w = (Inr (ItemHandle c), w2) \<and> is_column c \<and>
                    column_name c w2 = (Inr s, w2))) \<and>
         (wf_params (heap w) (params t) \<and> lower s \<notin> set (map lower cols) \<longrightarrow>
            (\<exists>out w2. getitem t (KeyList [ByName s]) w = (Inr (ItemHandle out), w2)))"
proof (intro conjI impI)
  assume "lower s \<notin> set (map lower cols)"
  then show "getitem t (KeyStr s) w = (Inl (KeyError s), w1)"
    using assms by (simp add: getitem_def bind_def throw_def)
next
  assume known: "lower s \<in> set (map lower cols)"
  obtain c w2 where "to_column t (Some s) w1 = (Inr c, w2)" "is_column c"
      "column_name c w2 = (Inr s, w2)"
    using to_column_named by blast
  then show "\<exists>c w2. getitem t (KeyStr s) w = (Inr (ItemHandle c), w2) \<and> is_column c \<and>
                    column_name c w2 = (Inr s, w2)"
    using assms known by (auto simp: getitem_def bind_def ret_def)
next
  assume "wf_params (heap w) (params t) \<and> lower s \<notin> set (map lower cols)"
  then have wf: "wf_params (heap w) (params t)" by simp
  have "resolve_keys cols [ByName s] = Inr [s]" by simp
  from getitem_list_result [OF wf assms(2) this]
  obtain out w' where "getitem_list t [ByName s] w = (Inr out, w')" by blast
  then show "\<exists>out w2. getitem t (KeyList [ByName s]) w = (Inr (ItemHandle out), w2)"
    using assms(1) by (simp add: getitem_def bind_def ret_def)
qed

theorem column_selection_witness:
  "getitem demo_table (KeyStr ''nope'') demo_world =
     (Inl (KeyError ''nope''),
      demo_world\<lparr>calls := [\<lparr>action = ''table.columninfo'',
                              table_bundle = [(''name'', VStr ''cars'')], kwargs = ui_kwargs\<rparr>]\<rparr>) \<and>
   (\<exists>c w2. getitem demo_table (KeyStr ''S'') demo_world = (Inr (ItemHandle c), w2) \<and> is_column c \<and>
           column_name c w2 = (Inr ''S'', w2)) \<and>
   (\<exists>out w2. getitem demo_table (KeyList [ByName ''nope'']) demo_world = (Inr (ItemHandle out), w2))"
proof -
  have table: "\<not> is_column demo_table"
    by (simp add: demo_table_def)
  have wf: "wf_params (heap demo_world) (params demo_table)"
    by (simp add: wf_params_def demo_table_def)
  have unknown: "lower ''nope'' \<notin> set (map lower [''a'', ''b'', ''s''])"
    by (simp add: lower_def lower_char_def)
  have known: "lower ''S'' \<in> set (map lower [''a'', ''b'', ''s''])"
    by (simp add: lower_def lower_char_def)
  show ?thesis
    using column_selection [OF table demo_columns, of "''nope''"]
      column_selection [OF table demo_columns, of "''S''"] wf unknown known
    by blast
qed

section \<open>Properties: operations that stay local\<close>

lemma silentI: "(\<And>w. calls (snd (m w)) = calls w) \<Longrightarrow> silent m"
  by (simp add: silent_def)

lemma silent_case_prod: "(\<And>a b. silent (f a b)) \<Longrightarrow> silent (case x of (a, b) \<Rightarrow> f a b)"
  by (cases x) simp

lemma silent_case_sum:
  "(\<And>a. silent (f a)) \<Longrightarrow> (\<And>b. silent (g b)) \<Longrightarrow> silent (case x of Inl a \<Rightarrow> f a | Inr b \<Rightarrow> g b)"
  by (cases x) simp_all

lemma silent_case_option:
  "silent f \<Longrightarrow> (\<And>b. silent (g b)) \<Longrightarrow> silent (case x of None \<Rightarrow> f | Some b \<Rightarrow> g b)"
  by (cases x) simp_all

lemma silent_if: "silent f \<Longrightarrow> silent g \<Longrightarrow> silent (if c then f else g)"
  by simp

lemma silent_deep_copy [simp]: "silent (deep_copy t)"
  by (rule silentI) (simp add: deep_copy_def split: prod.splits)

lemma silent_copy_handle [simp]: "silent (copy_handle t deep)"
  by (simp add: copy_handle_def)

lemma silent_list_extend [simp]: "silent (list_extend a xs)"
  by (rule silentI) (simp add: list_extend_def)

lemma silent_list_assign [simp]: "silent (list_assign a xs)"
  by (rule silentI) (simp add: list_assign_def)

lemma silent_read_list [simp]: "silent (read_list a)"
  by (rule silentI) (simp add: read_list_def)

lemma silent_param_as_list [simp]: "silent (param_as_list t key)"
  by (simp add: param_as_list_def split: option.splits pval.splits)

lemma silent_append_names_list [simp]: "silent (append_names_list t key items)"
  by (simp add: append_names_list_def silent_bind)

lemma silent_append_compvars [simp]: "silent (append_compvars t items)"
  by (simp add: append_compvars_def silent_bind)

lemma silent_append_groupby [simp]: "silent (append_groupby t items)"
  by (simp add: append_groupby_def silent_bind)

lemma silent_append_comppgm [simp]: "silent (append_comppgm t items)"
  by (simp add: append_comppgm_def append_comppgm_text_def silent_bind)

lemma silent_append_computed_columns [simp]: "silent (append_computed_columns t names code)"
  by (simp add: append_computed_columns_def silent_bind)

lemma silent_append_where [simp]: "silent (append_where t items)"
  by (simp add: append_where_def append_where_text_def silent_bind)

lemma silent_query: "silent (query t expr inplace engine)"
  by (simp add: query_def silent_bind)

lemma silent_sort_values: "silent (sort_values t by ascending inplace)"
  by (simp add: sort_values_def silent_bind)

lemma silent_column_name [simp]: "silent (column_name t)"
  by (rule silentI) (simp add: column_name_def split: option.splits pval.splits list.splits)

lemma silent_to_expression [simp]: "silent (to_expression t)"
  unfolding to_expression_def
  by (intro silent_bind silent_column_name silentI) simp

lemma silent_gen_id [simp]: "silent (gen_id t)"
  by (rule silentI)
    (simp add: gen_id_def bind_def get_connection_def split: option.splits)

lemma silent_in_compvars [simp]: "silent (in_compvars t outname)"
  by (rule silentI) (simp add: in_compvars_def)

lemma silent_render_kwargs [simp]: "silent (render_kwargs use_quotes operands)"
proof (induction operands)
  case Nil
  then show ?case by simp
next
  case (Cons p operands)
  obtain key v where p: "p = (key, v)" by (cases p)
  show ?case
    unfolding p render_kwargs.simps
    by (intro silent_bind silent_case_prod Cons) (cases v; simp add: silent_bind silent_case_prod)+
qed

lemma silent_compute: "silent (compute t funcname code use_quotes ecv ecp add_length dt operands)"
  unfolding compute_def Let_def
  by (intro silent_bind silent_case_prod silent_if silent_case_sum) simp_all

lemma silent_compare: "silent (compare t operator other)"
  unfolding compare_def
  by (intro silent_bind silent_case_prod silent_compute) (cases other; simp add: silent_bind silent_case_prod)+

lemma silent_new_calls: "silent m \<Longrightarrow> new_calls m w = []"
  by (simp add: new_calls_def silent_def)

lemma columninfo_calls_live:
  assumes "connection t = Some r" "conns w r = Some c"
  shows "calls (snd (columninfo t w)) = calls w @ [columninfo_request t w]"
proof -
  have "calls (snd (columninfo t w)) = calls (snd (retrieve_ui t ''table.columninfo'' [] w))"
    unfolding columninfo_def
    by (rule calls_bind_silent) (simp split: response.splits)
  then show ?thesis
    using assms by (simp add: retrieve_ui_result columninfo_request_def)
qed

lemma numeric_method_calls:
  "calls (snd (numeric_method attr fn template t other w)) = calls (snd (columninfo t w))"
proof -
  have "calls (snd (numeric_method attr fn template t other w)) = calls (snd (is_character t w))"
    unfolding numeric_method_def
    by (rule calls_bind_silent) (simp add: silent_compute)
  also have "\<dots> = calls (snd (dtype t w))"
    unfolding is_character_def by (rule calls_bind_silent) simp
  also have "\<dots> = calls (snd (columninfo t w))"
    unfolding dtype_def by (rule calls_bind_silent) (simp split: list.splits prod.splits)
  finally show ?thesis .
qed

lemma numeric_method_character:
  assumes "connection t = Some r" "conns w r = Some c"
    and "reported_type c t w = Some ty" "ty \<in> set character_types"
  shows "numeric_method attr fn template t other w =
           (Inl (AttributeError attr), w\<lparr>calls := calls w @ [columninfo_request t w]\<rparr>)"
proof -
  obtain n rest where "server c (columninfo_request t w) = ColumnInfo ((n, ty) # rest)"
    using assms(3)
    by (auto simp: reported_type_def split: response.splits list.splits)
  then have "columninfo t w =
      (Inr ((n, ty) # rest), w\<lparr>calls := calls w @ [columninfo_request t w]\<rparr>)"
    using assms(1,2)
    by (simp add: columninfo_def bind_def ret_def retrieve_ui_result columninfo_request_def)
  then show ?thesis
    using assms(4)
    by (simp add: numeric_method_def is_character_def dtype_def bind_def ret_def throw_def)
qed

lemma numeric_method_offline:
  assumes "reconnect t w = None"
  shows "numeric_method attr fn template t other w = (Inl no_connection, w)"
  using assms
  by (simp add: numeric_method_def is_character_def dtype_def columninfo_def bind_def
      retrieve_ui_reconnect)

lemma text_column_type: "reported_type demo_conn text_column column_world = Some ''varchar''"
  by (simp add: reported_type_def columninfo_request_def demo_conn_def demo_server_def
      demo_catalog_def text_column_def column_world_def bundle_of_def deref_def lower_def)

section \<open>Properties: subtraction on a character column\<close>

text \<open>
  Claim C5. \<^verbatim>\<open>sub\<close> asks \<^verbatim>\<open>_is_character\<close> first, which reads \<^verbatim>\<open>dtype\<close> and so
  sends \<^verbatim>\<open>table.columninfo\<close> to the server. When the handle has a live connection and
  the server reports a character type, \<^verbatim>\<open>sub\<close> raises \<^verbatim>\<open>AttributeError('sub')\<close>
  after exactly that one call; when the handle has no connection it raises the
  no-connection error and nothing is sent.
\<close>

theorem sub_character_column:
  "(connection t = Some r \<and> conns w r = Some c \<and>
    reported_type c t w = Some ty \<and> ty \<in> set character_types \<longrightarrow>
      sub t other w =
        (Inl (AttributeError ''sub''), w\<lparr>calls := calls w @ [columninfo_request t w]\<rparr>)) \<and>
   (reconnect t w = None \<longrightarrow> sub t other w = (Inl no_connection, w))"
  using numeric_method_character [of t r w c ty "''sub''" "''sub''" "''({value}) - ({other})''" other]
    numeric_method_offline [of t w "''sub''" "''sub''" "''({value}) - ({other})''" other]
  by (simp add: sub_def)

theorem sub_character_column_witness:
  "sub text_column (OpInt 1) column_world =
     (Inl (AttributeError ''sub''),
      column_world\<lparr>calls := calls column_world @ [columninfo_request text_column column_world]\<rparr>) \<and>
   sub (set_connection text_column None) (OpInt 1) column_world = (Inl no_connection, column_world)"
proof -
  have live: "connection text_column = Some 0" "conns column_world 0 = Some demo_conn"
    by (simp_all add: text_column_def column_world_def)
  have character: "''varchar'' \<in> set character_types"
    by (simp add: character_types_def)
  have offline: "reconnect (set_connection text_column None) column_world = None"
    by (simp add: reconnect_alt set_connection_def)
  show ?thesis
    using sub_character_column [of text_column 0 column_world demo_conn "''varchar''" "OpInt 1"]
      sub_character_column [of "set_connection text_column None" 0 column_world demo_conn
        "''varchar''" "OpInt 1"]
      live text_column_type character offline
    by simp
qed

theorem sub_character_column_counterexample:
  "fst (sub text_column (OpInt 1) column_world) = Inl (AttributeError ''sub'') \<and>
   map action (new_calls (sub text_column (OpInt 1)) column_world) = [''table.columninfo'']"
proof -
  have live: "connection text_column = Some 0" "conns column_world 0 = Some demo_conn"
    by (simp_all add: text_column_def column_world_def)
  have character: "''varchar'' \<in> set character_types"
    by (simp add: character_types_def)
  have "sub text_column (OpInt 1) column_world =
     (Inl (AttributeError ''sub''),
      column_world\<lparr>calls := calls column_world @ [columninfo_request text_column column_world]\<rparr>)"
    using numeric_method_character [OF live text_column_type character] by (simp add: sub_def)
  then show ?thesis
    by (simp add: new_calls_def columninfo_request_def)
qed

section \<open>Properties: which operations call the server\<close>

lemma deepcopy_params_defined:
  "(get_param (fst (deepcopy_params ps memo h)) key = None) = (get_param ps key = None)"
  by (induction ps memo h rule: deepcopy_params.induct)
     (auto split: prod.splits option.splits)

lemma deep_copy_shape:
  "\<exists>d h. deep_copy t w = (Inr d, w\<lparr>heap := h\<rparr>) \<and>
     (\<forall>key. (get_param (params d) key = None) = (get_param (params t) key = None))"
  using deepcopy_params_defined [of "params t" "[]" "heap w"]
  by (auto simp: deep_copy_def split: prod.splits)

lemma append_where_shape:
  "\<exists>code h. append_where t items w =
     (Inr (t\<lparr>params := set_param (params t) ''where'' (PStr code)\<rparr>), w\<lparr>heap := h\<rparr>)"
  by (auto simp: append_where_def append_where_text_def param_as_list_def bind_def alloc_def
      ret_def list_extend_def read_list_def split: option.splits pval.splits)

lemma append_compvars_shape:
  "\<exists>b h. append_compvars t items w =
     (Inr (t\<lparr>params := set_param (params t) ''compvars'' (PList b)\<rparr>), w\<lparr>heap := h\<rparr>)"
  by (auto simp: append_compvars_def append_names_list_def store_list_def param_as_list_def
      bind_def alloc_def ret_def list_extend_def read_list_def split: option.splits pval.splits)

lemma append_comppgm_shape:
  "\<exists>code h. append_comppgm t items w =
     (Inr (t\<lparr>params := set_param (params t) ''comppgm'' (PStr code)\<rparr>), w\<lparr>heap := h\<rparr>)"
  by (auto simp: append_comppgm_def append_comppgm_text_def param_as_list_def bind_def alloc_def
      ret_def list_extend_def list_assign_def read_list_def split: option.splits pval.splits)

lemma to_expression_world: "snd (to_expression key w) = w"
  by (simp add: to_expression_def bind_def column_name_def
      split: option.splits pval.splits list.splits)

lemma getitem_column_silent:
  assumes "get_param (params t) ''varlist'' \<noteq> None"
  shows "calls (snd (getitem_column t key w)) = calls w"
proof -
  obtain d h where d0: "deep_copy t w = (Inr d, w\<lparr>heap := h\<rparr>)"
      "\<forall>key. (get_param (params d) key = None) = (get_param (params t) key = None)"
    using deep_copy_shape [of t w] by blast
  have d: "deep_copy t w = (Inr d, w\<lparr>heap := h\<rparr>)" "get_param (params d) ''varlist'' \<noteq> None"
    using d0 assms by simp_all
  let ?w0 = "w\<lparr>heap := h\<rparr>"
  show ?thesis
  proof (cases "to_expression key ?w0")
    case (Pair r w1)
    then have w1: "w1 = ?w0" using to_expression_world [of key ?w0] by simp
    show ?thesis
    proof (cases r)
      case (Inl e)
      with d Pair w1 show ?thesis by (simp add: getitem_column_def bind_def)
    next
      case (Inr ex)
      obtain expr ecv ecp where ex: "ex = (expr, ecv, ecp)" by (cases ex)
      obtain code h1 where s1: "append_where d [Item expr] ?w0 =
          (Inr (d\<lparr>params := set_param (params d) ''where'' (PStr code)\<rparr>), ?w0\<lparr>heap := h1\<rparr>)"
        using append_where_shape by blast
      let ?o1 = "d\<lparr>params := set_param (params d) ''where'' (PStr code)\<rparr>"
      let ?w1 = "?w0\<lparr>heap := h1\<rparr>"
      have v1: "get_param (params ?o1) ''varlist'' \<noteq> None"
        using d(2) by (simp add: get_param_set_param_other)
      obtain o2 w2 where s2:
        "(if truthy ecv then append_compvars ?o1 [ecv] else ret ?o1) ?w1 = (Inr o2, w2)"
        "calls w2 = calls w" "get_param (params o2) ''varlist'' \<noteq> None"
      proof (cases "truthy ecv")
        case True
        obtain b h2 where "append_compvars ?o1 [ecv] ?w1 =
            (Inr (?o1\<lparr>params := set_param (params ?o1) ''compvars'' (PList b)\<rparr>), ?w1\<lparr>heap := h2\<rparr>)"
          using append_compvars_shape by blast
        with True v1 that show ?thesis
          by (simp add: get_param_set_param_other)
      next
        case False
        with v1 that show ?thesis by (simp add: ret_def)
      qed
      obtain o3 w3 where s3:
        "(if truthy ecp then append_comppgm o2 [ecp] else ret o2) w2 = (Inr o3, w3)"
        "calls w3 = calls w" "get_param (params o3) ''varlist'' \<noteq> None"
      proof (cases "truthy ecp")
        case True
        obtain c h3 where "append_comppgm o2 [ecp] w2 =
            (Inr (o2\<lparr>params := set_param (params o2) ''comppgm'' (PStr c)\<rparr>), w2\<lparr>heap := h3\<rparr>)"
          using append_comppgm_shape by blast
        with True s2 that show ?thesis
          by (simp add: get_param_set_param_other)
      next
        case False
        with s2 that show ?thesis by (simp add: ret_def)
      qed
      obtain y where y: "get_param (params o3) ''varlist'' = Some y"
        using s3(3) by blast
      show ?thesis
        using d(1) Pair w1 Inr ex s1 s2(1) s3(1,2) y
        by (simp add: getitem_column_def bind_def ret_def)
    qed
  qed
qed

lemma getitem_list_silent:
  assumes "wf_params (heap w) (params t)" "get_param (params t) ''varlist'' = Some (PList b)"
    "deref (heap w) b \<noteq> []"
  shows "calls (snd (getitem_list t keys w)) = calls w"
proof -
  obtain d ext1 where d: "deep_copy t w = (Inr d, w\<lparr>heap := heap w @ ext1\<rparr>)"
      "bundle_of (heap w @ ext1) (params d) = bundle_of (heap w) (params t)"
      "connection d = reconnect t w"
    using deep_copy_props [OF assms(1)] by blast
  let ?w0 = "w\<lparr>heap := heap w @ ext1\<rparr>"
  have rc: "reconnect d ?w0 = reconnect t w"
    using reconnect_copy [OF d(3), of ?w0] by simp
  have ct: "columns t w = (Inr (deref (heap w) b), w)"
    using columns_of_list [OF assms(2,3)] .
  obtain cs where cs: "columns t w = (fst (columns t w), w\<lparr>calls := calls w @ cs\<rparr>)"
      "columns d ?w0 = (fst (columns t w), ?w0\<lparr>calls := calls ?w0 @ cs\<rparr>)"
    using columns_cong [of ?w0 d w t] d(2) rc by auto
  have "calls w = calls w @ cs"
    using cs(1) ct by (metis (no_types, lifting) snd_conv world.select_convs(3) world.surjective world.update_convs(3))
  then have "cs = []" by simp
  then have cd: "calls (snd (columns d ?w0)) = calls w"
    using cs(2) by simp
  have "calls (snd (getitem_list t keys w)) = calls (snd (columns d ?w0))"
    unfolding getitem_list_def
    using d(1)
    by (simp add: bind_def [of "deep_copy t"])
      (rule calls_bind_silent, simp add: silent_bind split: sum.splits)
  with cd show ?thesis by simp
qed

lemma column_world_wf: "wf_params (heap column_world) (params listed_table)"
  by (simp add: wf_params_def listed_table_def column_world_def)

text \<open>
  Claim C1. \<^verbatim>\<open>query\<close>, \<^verbatim>\<open>sort_values\<close> and the comparison operators never call the
  server. Selection with a list of keys calls none when the handle lists its columns in a
  non-empty \<^verbatim>\<open>varlist\<close>, and selection with a boolean column calls none when the
  handle has a \<^verbatim>\<open>varlist\<close>. The arithmetic methods of a column with a live connection
  send exactly one request, \<^verbatim>\<open>table.columninfo\<close>, to learn the type of the column.
\<close>

theorem construction_calls:
  "silent (query t expr inplace engine) \<and>
   silent (sort_values t names ascending inplace) \<and>
   silent (compare t operator other) \<and>
   (wf_params (heap w) (params t) \<and> get_param (params t) ''varlist'' = Some (PList b) \<and>
    deref (heap w) b \<noteq> [] \<longrightarrow> new_calls (getitem_list t keys) w = []) \<and>
   (get_param (params t) ''varlist'' \<noteq> None \<longrightarrow> new_calls (getitem_column t key) w = []) \<and>
   (connection t = Some r \<and> conns w r = Some c \<longrightarrow>
      new_calls (numeric_method attr funcname template t other) w = [columninfo_request t w])"
proof -
  have "silent (query t expr inplace engine)"
    by (rule silent_query)
  moreover have "silent (sort_values t names ascending inplace)"
    by (rule silent_sort_values)
  moreover have "silent (compare t operator other)"
    by (rule silent_compare)
  moreover have "new_calls (getitem_list t keys) w = []"
    if "wf_params (heap w) (params t)" "get_param (params t) ''varlist'' = Some (PList b)"
      "deref (heap w) b \<noteq> []"
    using getitem_list_silent [OF that] by (simp add: new_calls_def)
  moreover have "new_calls (getitem_column t key) w = []"
    if "get_param (params t) ''varlist'' \<noteq> None"
    using getitem_column_silent [OF that] by (simp add: new_calls_def)
  moreover have "new_calls (numeric_method attr funcname template t other) w = [columninfo_request t w]"
    if "connection t = Some r" "conns w r = Some c"
    using columninfo_calls_live [OF that] numeric_method_calls [of attr funcname template t other w]
    by (simp add: new_calls_def)
  ultimately show ?thesis by blast
qed

theorem construction_calls_witness:
  "new_calls (query listed_table ''a > 1'' False ''cas'') column_world = [] \<and>
   new_calls (sort_values listed_table [''a''] (Inl True) False) column_world = [] \<and>
   new_calls (compare number_column ''>'' (OpInt 1)) column_world = [] \<and>
   new_calls (getitem_list listed_table [ByName ''s'']) column_world = [] \<and>
   new_calls (getitem_column listed_table number_column) column_world = [] \<and>
   new_calls (sub number_column (OpInt 1)) column_world =
     [columninfo_request number_column column_world]"
proof -
  have facts: "get_param (params listed_table) ''varlist'' = Some (PList 0)"
      "deref (heap column_world) 0 \<noteq> []"
      "connection number_column = Some 0" "conns column_world 0 = Some demo_conn"
    by (simp_all add: listed_table_def number_column_def column_world_def
        deref_def lower_def)
  show ?thesis
    using construction_calls [where t = listed_table and expr = "''a > 1''" and inplace = False
        and engine = "''cas''" and names = "[''a'']" and ascending = "Inl True" and w = column_world
        and b = 0 and keys = "[ByName ''s'']" and key = number_column]
      construction_calls [where t = number_column and operator = "''>''" and other = "OpInt 1"
        and w = column_world and r = 0 and c = demo_conn and attr = "''sub''"
        and funcname = "''sub''" and template = "''({value}) - ({other})''"]
      facts column_world_wf
    by (simp add: silent_def new_calls_def sub_def)
qed

theorem construction_calls_counterexample:
  "map action (new_calls (sub number_column (OpInt 1)) column_world) = [''table.columninfo''] \<and>
   sub (set_connection number_column None) (OpInt 1) column_world = (Inl no_connection, column_world)"
proof -
  have live: "connection number_column = Some 0" "conns column_world 0 = Some demo_conn"
    by (simp_all add: number_column_def column_world_def)
  have "new_calls (sub number_column (OpInt 1)) column_world =
      [columninfo_request number_column column_world]"
    using columninfo_calls_live [OF live]
      numeric_method_calls [of "''sub''" "''sub''" "''({value}) - ({other})''" number_column
        "OpInt 1" column_world]
    by (simp add: new_calls_def sub_def)
  moreover have "reconnect (set_connection number_column None) column_world = None"
    by (simp add: reconnect_alt set_connection_def)
  ultimately show ?thesis
    using numeric_method_offline [of "set_connection number_column None" column_world
        "''sub''" "''sub''" "''({value}) - ({other})''" "OpInt 1"]
    by (simp add: columninfo_request_def sub_def)
qed

section \<open>Properties: row slices and negative positions\<close>








section \<open>Properties: equality of handles\<close>

lemma handle_eq_tables:
  assumes "\<not> is_column t" "\<not> is_column u"
  shows "handle_eq t x (OpHandle u y) w =
    (Inr (EqBool (set (bundle_of (heap w) (params t)) = set (bundle_of (heap w) (params u)))), w)"
  using assms by (simp add: handle_eq_def table_eq_def)

lemma handle_eq_other:
  assumes "\<not> is_column t"
  shows "handle_eq t x (OpText s) w = (Inr (EqBool False), w)"
    "handle_eq t x (OpInt i) w = (Inr (EqBool False), w)"
  using assms by (simp_all add: handle_eq_def table_eq_def)

lemma handle_eq_deep_copy:
  assumes "\<not> is_column t" "wf_params (heap w) (params t)"
  shows "\<exists>d w'. deep_copy t w = (Inr d, w') \<and> handle_eq t x (OpHandle d x) w' = (Inr (EqBool True), w')"
proof -
  obtain d ext where d: "deep_copy t w = (Inr d, w\<lparr>heap := heap w @ ext\<rparr>)"
      "bundle_of (heap w @ ext) (params d) = bundle_of (heap w) (params t)"
      "is_column d = is_column t"
    using deep_copy_props [OF assms(2)] by blast
  have "bundle_of (heap w @ ext) (params t) = bundle_of (heap w) (params t)"
    using wf_bundle_append [OF assms(2)] .
  then have "handle_eq t x (OpHandle d x) (w\<lparr>heap := heap w @ ext\<rparr>) =
      (Inr (EqBool True), w\<lparr>heap := heap w @ ext\<rparr>)"
    using d(2,3) assms(1) by (simp add: handle_eq_def table_eq_def)
  with d(1) show ?thesis by blast
qed

lemma handle_eq_column:
  assumes "is_column t \<or> is_column u"
  shows "fst (handle_eq t x (OpHandle u y) w) \<noteq> Inr (EqBool b)"
  using assms
  by (auto simp: handle_eq_def bind_def ret_def split: prod.splits sum.splits)

text \<open>
  Claim C6. For two table handles that are not columns, \<^verbatim>\<open>a == b\<close> is the boolean that
  says whether the two parameter bundles have the same entries; a table handle never
  equals a text or a number, and it equals its deep copy. As soon as one of the two
  operands is a column, \<^verbatim>\<open>==\<close> is the element-wise comparison of \<^verbatim>\<open>CASColumn\<close>: it
  builds a computed column or raises, and never answers with a boolean.
\<close>

theorem handle_equality:
  "(\<not> is_column t \<and> \<not> is_column u \<longrightarrow>
      handle_eq t x (OpHandle u y) w =
        (Inr (EqBool (set (bundle_of (heap w) (params t)) = set (bundle_of (heap w) (params u)))), w)) \<and>
   (\<not> is_column t \<longrightarrow>
      handle_eq t x (OpText s) w = (Inr (EqBool False), w) \<and>
      handle_eq t x (OpInt i) w = (Inr (EqBool False), w)) \<and>
   (\<not> is_column t \<and> wf_params (heap w) (params t) \<longrightarrow>
      (\<exists>d w'. deep_copy t w = (Inr d, w') \<and>
         handle_eq t x (OpHandle d x) w' = (Inr (EqBool True), w'))) \<and>
   (is_column t \<or> is_column u \<longrightarrow> fst (handle_eq t x (OpHandle u y) w) \<noteq> Inr (EqBool b))"
  using handle_eq_tables [of t u x y w] handle_eq_other(1) [of t x s w] handle_eq_other(2) [of t x i w]
    handle_eq_deep_copy [of t w x] handle_eq_column [of t u x y w b]
  by blast

theorem handle_equality_witness:
  "handle_eq listed_table ''CASTable('cars', vars=['a', 'b'])'' (OpHandle demo_table ''CASTable('cars')'') listed_world =
     (Inr (EqBool (set (bundle_of (heap listed_world) (params listed_table)) =
                   set (bundle_of (heap listed_world) (params demo_table)))), listed_world) \<and>
   handle_eq listed_table ''CASTable('cars', vars=['a', 'b'])'' (OpText ''cars'') listed_world = (Inr (EqBool False), listed_world) \<and>
   handle_eq listed_table ''CASTable('cars', vars=['a', 'b'])'' (OpInt 1) listed_world = (Inr (EqBool False), listed_world) \<and>
   (\<exists>d w'. deep_copy listed_table listed_world = (Inr d, w') \<and>
      handle_eq listed_table ''CASTable('cars', vars=['a', 'b'])'' (OpHandle d ''CASTable('cars', vars=['a', 'b'])'') w' = (Inr (EqBool True), w')) \<and>
   fst (handle_eq listed_table ''CASTable('cars', vars=['a', 'b'])'' (OpHandle text_column []) column_world) \<noteq> Inr (EqBool False)"
proof -
  have facts: "\<not> is_column listed_table" "\<not> is_column demo_table" "is_column text_column"
    by (simp_all add: listed_table_def demo_table_def text_column_def)
  show ?thesis
    using handle_equality [where t = listed_table and u = demo_table and w = listed_world
        and s = "''cars''" and i = 1 and x = "''CASTable('cars', vars=['a', 'b'])''"
        and y = "''CASTable('cars')''"]
      handle_equality [where t = listed_table and u = text_column and w = column_world
        and b = False and x = "''CASTable('cars', vars=['a', 'b'])''" and y = "[]"]
      facts listed_wf
    by simp
qed

theorem handle_equality_counterexample:
  "table_eq text_column (OpHandle text_column []) column_world \<and>
   fst (handle_eq text_column [] (OpHandle text_column []) column_world) =
     Inr (EqColumn
       \<lparr>params = [(''name'', PStr ''cars''), (''varlist'', PList 3), (''compvars'', PList 5),
                  (''comppgm'', PStr ''_eq_0_ = (s = s); '')],
        action_defaults = [], connection = Some 0, is_column = True\<rparr>)"
  by code_simp

section \<open>Properties: what a copy shares with its source\<close>














end
